theory Spec2Isabelle
  imports Complex_Main
begin

section \<open>JavaScript values\<close>

text \<open>
  A JavaScript \<open>number\<close>: an IEEE 754 double. A finite double is given by the real it
  denotes, and the three other values are kept, since \<open>typeof\<close> calls them numbers and
  \<open>JSON.stringify\<close> does not. The two zeros are not told apart.
\<close>

datatype number = Finite real | PosInfinity | NegInfinity | NaN

text \<open>The operator \<open>a > b\<close> on two numbers: false as soon as one side is \<open>NaN\<close>.\<close>

fun num_gt :: "number \<Rightarrow> number \<Rightarrow> bool" where
  "num_gt (Finite a) (Finite b) = (b < a)"
| "num_gt (Finite a) NegInfinity = True"
| "num_gt PosInfinity (Finite b) = True"
| "num_gt PosInfinity NegInfinity = True"
| "num_gt a b = False"

subsection \<open>Rounding to a double\<close>

text \<open>\<open>2\<close> to an integer power.\<close>

definition pow2 :: "int \<Rightarrow> real" where
  "pow2 e = (if 0 \<le> e then 2 ^ nat e else 1 / 2 ^ nat (- e))"

text \<open>The binary exponent of a positive real \<open>x\<close>: the \<open>e\<close> with \<open>2 ^ e \<le> x < 2 ^ (e + 1)\<close>.\<close>

function expo :: "real \<Rightarrow> int" where
  "expo x = (if 2 \<le> x then expo (x / 2) + 1
             else if 0 < x \<and> x < 1 then expo (x * 2) - 1
             else 0)"
  by pat_completeness auto
termination
proof (relation "measure (\<lambda>x. if 1 \<le> x then nat \<lfloor>x\<rfloor> else if 0 < x then nat \<lceil>1 / x\<rceil> else 0)")
  show "wf (measure (\<lambda>x. if 1 \<le> x then nat \<lfloor>x\<rfloor> else if 0 < x then nat \<lceil>1 / x\<rceil> else 0))"
    by simp
next
  fix x :: real
  assume "2 \<le> x"
  then have "\<lfloor>x / 2\<rfloor> < \<lfloor>x\<rfloor>" by linarith
  with \<open>2 \<le> x\<close> show "(x / 2, x) \<in> measure (\<lambda>x. if 1 \<le> x then nat \<lfloor>x\<rfloor> else if 0 < x then nat \<lceil>1 / x\<rceil> else 0)"
    by simp
next
  fix x :: real
  assume a: "\<not> 2 \<le> x" "0 < x \<and> x < 1"
  then have y: "1 < 1 / x" by simp
  show "(x * 2, x) \<in> measure (\<lambda>x. if 1 \<le> x then nat \<lfloor>x\<rfloor> else if 0 < x then nat \<lceil>1 / x\<rceil> else 0)"
  proof (cases "1 \<le> x * 2")
    case True
    with a have "\<lfloor>x * 2\<rfloor> = 1" by linarith
    moreover from y have "2 \<le> \<lceil>1 / x\<rceil>" by linarith
    ultimately show ?thesis using a True by simp
  next
    case False
    with a have "2 < 1 / x" by (simp add: field_simps)
    moreover have "1 / (x * 2) = (1 / x) / 2" by simp
    ultimately have "\<lceil>1 / (x * 2)\<rceil> < \<lceil>1 / x\<rceil>" by linarith
    moreover from y have "0 < \<lceil>1 / x\<rceil>" by linarith
    ultimately show ?thesis using a False by simp
  qed
qed

declare expo.simps [simp del]

text \<open>The nearest integer, the even one of the two when they are equally near.\<close>

definition round_half_even :: "real \<Rightarrow> int" where
  "round_half_even y =
     (let f = \<lfloor>y\<rfloor>; r = y - real_of_int f
      in if r < 1 / 2 then f else if 1 / 2 < r then f + 1 else if even f then f else f + 1)"

text \<open>
  The double that a real result is stored as: the nearest multiple of the spacing of
  the doubles at its size (53 significant bits, and \<open>2 ^ -1074\<close> below the normal
  range), ties to the even multiple, and an infinity from \<open>2 ^ 1024\<close> on.
\<close>

definition round_double :: "real \<Rightarrow> number" where
  "round_double x =
     (let e = max (expo \<bar>x\<bar>) (- 1022);
          q = pow2 (e - 52);
          r = real_of_int (round_half_even (x / q)) * q
      in if 2 ^ 1024 \<le> \<bar>r\<bar> then (if 0 < x then PosInfinity else NegInfinity) else Finite r)"

text \<open>The spacing of the doubles at the size of \<open>x\<close>.\<close>

definition quantum :: "real \<Rightarrow> real" where
  "quantum x = pow2 (max (expo \<bar>x\<bar>) (- 1022) - 52)"

subsection \<open>Arithmetic\<close>

text \<open>The operators \<open>a + b\<close>, \<open>- a\<close>, \<open>a - b\<close>, \<open>a * b\<close> and \<open>a / b\<close>, \<open>Math.ceil\<close> and \<open>Math.max\<close>.\<close>

fun num_add :: "number \<Rightarrow> number \<Rightarrow> number" where
  "num_add (Finite a) (Finite b) = round_double (a + b)"
| "num_add NaN b = NaN"
| "num_add a NaN = NaN"
| "num_add PosInfinity NegInfinity = NaN"
| "num_add NegInfinity PosInfinity = NaN"
| "num_add PosInfinity b = PosInfinity"
| "num_add a PosInfinity = PosInfinity"
| "num_add NegInfinity b = NegInfinity"
| "num_add a NegInfinity = NegInfinity"

fun num_neg :: "number \<Rightarrow> number" where
  "num_neg (Finite a) = Finite (- a)"
| "num_neg PosInfinity = NegInfinity"
| "num_neg NegInfinity = PosInfinity"
| "num_neg NaN = NaN"

definition num_sub :: "number \<Rightarrow> number \<Rightarrow> number" where
  "num_sub a b = num_add a (num_neg b)"

definition sign_of :: "number \<Rightarrow> bool" where
  "sign_of a = (case a of Finite x \<Rightarrow> x < 0 | NegInfinity \<Rightarrow> True | _ \<Rightarrow> False)"

definition signed_infinity :: "bool \<Rightarrow> number" where
  "signed_infinity negative = (if negative then NegInfinity else PosInfinity)"

definition num_mul :: "number \<Rightarrow> number \<Rightarrow> number" where
  "num_mul a b =
     (case (a, b) of
        (NaN, _) \<Rightarrow> NaN
      | (_, NaN) \<Rightarrow> NaN
      | (Finite x, Finite y) \<Rightarrow> round_double (x * y)
      | (Finite x, _) \<Rightarrow> if x = 0 then NaN else signed_infinity (sign_of a \<noteq> sign_of b)
      | (_, Finite y) \<Rightarrow> if y = 0 then NaN else signed_infinity (sign_of a \<noteq> sign_of b)
      | (_, _) \<Rightarrow> signed_infinity (sign_of a \<noteq> sign_of b))"

definition num_div :: "number \<Rightarrow> number \<Rightarrow> number" where
  "num_div a b =
     (case (a, b) of
        (NaN, _) \<Rightarrow> NaN
      | (_, NaN) \<Rightarrow> NaN
      | (Finite x, Finite y) \<Rightarrow>
          if y = 0 then (if x = 0 then NaN else signed_infinity (x < 0)) else round_double (x / y)
      | (Finite x, _) \<Rightarrow> Finite 0
      | (_, Finite y) \<Rightarrow> signed_infinity (sign_of a \<noteq> sign_of b)
      | (_, _) \<Rightarrow> NaN)"

fun num_ceil :: "number \<Rightarrow> number" where
  "num_ceil (Finite a) = Finite (real_of_int \<lceil>a\<rceil>)"
| "num_ceil a = a"

definition num_max :: "number \<Rightarrow> number \<Rightarrow> number" where
  "num_max a b = (if a = NaN \<or> b = NaN then NaN else if num_gt a b then a else b)"

fun is_finite :: "number \<Rightarrow> bool" where
  "is_finite (Finite a) = True"
| "is_finite a = False"

text \<open>
  The values the program handles: what \<open>JSON.parse\<close> returns, and \<open>undefined\<close>, which
  reading an absent property gives. An object is the list of its own properties;
  \<open>map_of\<close> reads it.
\<close>

datatype jsval =
    Undefined
  | Null
  | Bool bool
  | Num number
  | Str string
  | Arr "jsval list"
  | Obj "(string \<times> jsval) list"

datatype error =
    TypeError
  | SyntaxError
  | RangeError
  | AbortError
  | ENOENT
  | Error string
  | WeatherCom_error nat
  | Thrown_undefined

text \<open>
  \<open>value.name\<close> for one of the property names the program reads (\<open>date_local\<close>,
  \<open>samples\<close>, ...): a \<open>TypeError\<close> on \<open>null\<close> and \<open>undefined\<close>, the own property of
  an object, and \<open>undefined\<close> on every other value, whose prototypes have no property
  of these names.
\<close>

fun get_prop :: "jsval \<Rightarrow> string \<Rightarrow> error + jsval" where
  "get_prop Undefined k = Inl TypeError"
| "get_prop Null k = Inl TypeError"
| "get_prop (Obj kvs) k = Inr (case map_of kvs k of None \<Rightarrow> Undefined | Some v \<Rightarrow> v)"
| "get_prop v k = Inr Undefined"

text \<open>The operator \<open>a ?? b\<close>.\<close>

definition nullish :: "jsval \<Rightarrow> jsval \<Rightarrow> jsval" where
  "nullish a b = (if a = Undefined \<or> a = Null then b else a)"

text \<open>\<open>typeof v === "number" ? v : null\<close>, at the type \<open>number | null\<close>.\<close>

fun number_or_null :: "jsval \<Rightarrow> number option" where
  "number_or_null (Num n) = Some n"
| "number_or_null v = None"

fun of_nullable_number :: "number option \<Rightarrow> jsval" where
  "of_nullable_number None = Null"
| "of_nullable_number (Some n) = Num n"

fun of_nullable_string :: "string option \<Rightarrow> jsval" where
  "of_nullable_string None = Null"
| "of_nullable_string (Some s) = Str s"

definition bindE :: "error + 'a \<Rightarrow> ('a \<Rightarrow> error + 'b) \<Rightarrow> error + 'b" where
  "bindE m f = (case m of Inl e \<Rightarrow> Inl e | Inr x \<Rightarrow> f x)"

section \<open>JSON text and the file system\<close>

text \<open>
  The value that \<open>JSON.parse (JSON.stringify v)\<close> returns for a value \<open>v\<close> that is not
  \<open>undefined\<close>: a non-finite number is written as \<open>null\<close>, a property whose value is
  \<open>undefined\<close> is left out, an \<open>undefined\<close> array element is written as \<open>null\<close>.
\<close>

fun json_image :: "jsval \<Rightarrow> jsval" where
  "json_image (Num n) = (if is_finite n then Num n else Null)"
| "json_image (Arr vs) = Arr (map json_image vs)"
| "json_image (Obj kvs) =
     Obj (map (\<lambda>kv. (fst kv, json_image (snd kv))) (filter (\<lambda>kv. snd kv \<noteq> Undefined) kvs))"
| "json_image Undefined = Null"
| "json_image v = v"

text \<open>
  The text of a file, up to what \<open>JSON.parse\<close> makes of it: the serialisation of one
  value (\<open>Json_text\<close>, what \<open>writeFile\<close> of a \<open>JSON.stringify\<close> leaves), a sequence of
  appended lines with one serialised value each (\<open>Json_lines\<close>, what \<open>appendFile\<close>
  builds), or text that is not JSON.
\<close>

datatype file_text = Json_text jsval | Json_lines "jsval list" | Not_json

fun JSON_parse :: "file_text \<Rightarrow> error + jsval" where
  "JSON_parse (Json_text v) = Inr v"
| "JSON_parse (Json_lines [v]) = Inr v"
| "JSON_parse t = Inl SyntaxError"

definition JSON_stringify :: "jsval \<Rightarrow> file_text" where
  "JSON_stringify v = Json_text (json_image v)"

text \<open>
  The file system maps a path to the text of the file there; \<open>None\<close> is a path that
  \<open>readFile\<close> cannot read. Writing always succeeds in this model.
\<close>

type_synonym fs = "string \<Rightarrow> file_text option"

definition readFile :: "fs \<Rightarrow> string \<Rightarrow> error + file_text" where
  "readFile files filePath = (case files filePath of None \<Rightarrow> Inl ENOENT | Some t \<Rightarrow> Inr t)"

definition writeFile :: "fs \<Rightarrow> string \<Rightarrow> file_text \<Rightarrow> fs" where
  "writeFile files filePath t = files(filePath \<mapsto> t)"

text \<open>\<open>appendFile\<close> of one line holding the serialisation of \<open>v\<close>.\<close>

definition appendFile :: "fs \<Rightarrow> string \<Rightarrow> jsval \<Rightarrow> fs" where
  "appendFile files filePath v =
     files(filePath \<mapsto>
       (case files filePath of
          None \<Rightarrow> Json_lines [json_image v]
        | Some (Json_lines ls) \<Rightarrow> Json_lines (ls @ [json_image v])
        | Some t \<Rightarrow> Not_json))"

section \<open>The daily aggregate (utils.ts)\<close>

text \<open>
  \<open>DailyHighRecord\<close>. The two temperatures are \<open>number | null\<close> wherever the program
  builds the record (\<open>readDailyHigh\<close> checks \<open>typeof\<close>); the other five fields hold
  whatever the parsed file held, so they are JavaScript values.
\<close>

record DailyHighRecord =
  date_local :: jsval
  timezone :: jsval
  samples :: jsval
  high_temperatureC :: "number option"
  high_at_validTimeLocal :: jsval
  last_seen_temperatureC :: "number option"
  last_seen_validTimeLocal :: jsval

text \<open>The object that \<open>JSON.stringify\<close> is given for a record.\<close>

definition record_object :: "DailyHighRecord \<Rightarrow> jsval" where
  "record_object r = Obj
     [(''date_local'', date_local r),
      (''timezone'', timezone r),
      (''samples'', samples r),
      (''high_temperatureC'', of_nullable_number (high_temperatureC r)),
      (''high_at_validTimeLocal'', high_at_validTimeLocal r),
      (''last_seen_temperatureC'', of_nullable_number (last_seen_temperatureC r)),
      (''last_seen_validTimeLocal'', last_seen_validTimeLocal r)]"

text \<open>The \<open>try\<close> block of \<open>readDailyHigh\<close>: every throw is an \<open>Inl\<close>.\<close>

definition readDailyHigh_try :: "fs \<Rightarrow> string \<Rightarrow> string \<Rightarrow> string \<Rightarrow> error + DailyHighRecord" where
  "readDailyHigh_try files filePath dateLocal timeZone =
     bindE (readFile files filePath) (\<lambda>raw.
     bindE (JSON_parse raw) (\<lambda>parsed.
     bindE (get_prop parsed ''date_local'') (\<lambda>p_date_local.
     bindE (get_prop parsed ''timezone'') (\<lambda>p_timezone.
     bindE (get_prop parsed ''samples'') (\<lambda>p_samples.
     bindE (get_prop parsed ''high_temperatureC'') (\<lambda>p_high.
     bindE (get_prop parsed ''high_at_validTimeLocal'') (\<lambda>p_high_at.
     bindE (get_prop parsed ''last_seen_temperatureC'') (\<lambda>p_last.
     bindE (get_prop parsed ''last_seen_validTimeLocal'') (\<lambda>p_last_at.
     Inr \<lparr>date_local = nullish p_date_local (Str dateLocal),
          timezone = nullish p_timezone (Str timeZone),
          samples = nullish p_samples (Num (Finite 0)),
          high_temperatureC = number_or_null p_high,
          high_at_validTimeLocal = nullish p_high_at Null,
          last_seen_temperatureC = number_or_null p_last,
          last_seen_validTimeLocal = nullish p_last_at Null\<rparr>)))))))))"

text \<open>The record of the \<open>catch\<close> block.\<close>

definition fresh_record :: "string \<Rightarrow> string \<Rightarrow> DailyHighRecord" where
  "fresh_record dateLocal timeZone =
     \<lparr>date_local = Str dateLocal,
      timezone = Str timeZone,
      samples = Num (Finite 0),
      high_temperatureC = None,
      high_at_validTimeLocal = Null,
      last_seen_temperatureC = None,
      last_seen_validTimeLocal = Null\<rparr>"

definition readDailyHigh :: "fs \<Rightarrow> string \<Rightarrow> string \<Rightarrow> string \<Rightarrow> DailyHighRecord" where
  "readDailyHigh files filePath dateLocal timeZone =
     (case readDailyHigh_try files filePath dateLocal timeZone of
        Inr r \<Rightarrow> r
      | Inl e \<Rightarrow> fresh_record dateLocal timeZone)"

definition writeDailyHigh :: "fs \<Rightarrow> string \<Rightarrow> DailyHighRecord \<Rightarrow> fs" where
  "writeDailyHigh files filePath r = writeFile files filePath (JSON_stringify (record_object r))"

text \<open>The interface \<open>DailyHighRecord\<close> of types.ts, as a check on the five untyped fields.\<close>

definition well_typed :: "DailyHighRecord \<Rightarrow> bool" where
  "well_typed r =
     ((case date_local r of Str s \<Rightarrow> True | _ \<Rightarrow> False) \<and>
      (case timezone r of Str s \<Rightarrow> True | _ \<Rightarrow> False) \<and>
      (case samples r of Num n \<Rightarrow> True | _ \<Rightarrow> False) \<and>
      (case high_at_validTimeLocal r of Null \<Rightarrow> True | Str s \<Rightarrow> True | _ \<Rightarrow> False) \<and>
      (case last_seen_validTimeLocal r of Null \<Rightarrow> True | Str s \<Rightarrow> True | _ \<Rightarrow> False))"

text \<open>No number of the record is \<open>NaN\<close> or an infinity.\<close>

definition finite_numbers :: "DailyHighRecord \<Rightarrow> bool" where
  "finite_numbers r =
     ((case samples r of Num n \<Rightarrow> is_finite n | _ \<Rightarrow> True) \<and>
      (case high_temperatureC r of Some n \<Rightarrow> is_finite n | None \<Rightarrow> True) \<and>
      (case last_seen_temperatureC r of Some n \<Rightarrow> is_finite n | None \<Rightarrow> True))"

section \<open>The host\<close>

text \<open>
  What the program asks of its runtime and this development does not look into: the
  clock, \<open>Date\<close> parsing (\<open>None\<close> is an invalid date), the \<open>en-CA\<close> date formatter of
  \<open>Intl.DateTimeFormat\<close> for a time zone (a \<open>RangeError\<close> on a zone it does not know),
  \<open>toISOString\<close>, \<open>Number.parseInt (s, 10)\<close>, \<open>String.prototype.trim\<close>, the conversion
  of a number to a string and the encoding of \<open>URLSearchParams\<close>. Times are milliseconds
  since the epoch.
\<close>

record host =
  Date_now :: int
  Date_parse :: "string \<Rightarrow> int option"
  DateTimeFormat_en_CA :: "int \<Rightarrow> string \<Rightarrow> error + string"
  toISOString :: "int \<Rightarrow> string"
  parseInt10 :: "string \<Rightarrow> number"
  String_trim :: "string \<Rightarrow> string"
  Number_toString :: "number \<Rightarrow> string"
  URLSearchParams_toString :: "(string \<times> string) list \<Rightarrow> string"

section \<open>The response payload (types.ts)\<close>

record Location =
  city :: "string option"
  displayContext :: "string option"
  ianaTimeZone :: "string option"
  pwsId :: "string option"
  countryCode :: "string option"

text \<open>
  The interface requires \<open>location\<close>; the code reads it with \<open>?.\<close> and tests it, so
  the model lets it be absent.
\<close>

record LocationPoint =
  location :: "Location option"

record ObservationsCurrent =
  temperature :: "number option"
  validTimeUtc :: "number option"
  validTimeLocal :: "string option"
  temperatureMax24Hour :: "number option"
  temperatureMin24Hour :: "number option"
  relativeHumidity :: "number option"
  windSpeed :: "number option"
  windDirectionCardinal :: "string option"
  pressureMeanSeaLevel :: "number option"
  wxPhraseLong :: "string option"

record CompositeEntry =
  entry_id :: "string option"
  v3_location_point :: "LocationPoint option"
  v3_wx_observations_current :: "ObservationsCurrent option"

section \<open>utils.ts\<close>

text \<open>\<open>entry["v3-location-point"]?.location\<close>\<close>

definition entry_location :: "CompositeEntry \<Rightarrow> Location option" where
  "entry_location entry = (case v3_location_point entry of None \<Rightarrow> None | Some lp \<Rightarrow> location lp)"

text \<open>\<open>location?.city === "London" && location?.countryCode === "GB"\<close>\<close>

definition is_london_gb :: "CompositeEntry \<Rightarrow> bool" where
  "is_london_gb entry =
     (case entry_location entry of
        None \<Rightarrow> False
      | Some l \<Rightarrow> city l = Some ''London'' \<and> countryCode l = Some ''GB'')"

definition selectLocation :: "CompositeEntry list \<Rightarrow> string \<Rightarrow> CompositeEntry option" where
  "selectLocation entries targetId =
     (case find (\<lambda>entry. entry_id entry = Some targetId) entries of
        Some directMatch \<Rightarrow> Some directMatch
      | None \<Rightarrow> find is_london_gb entries)"

definition formatDateParts :: "host \<Rightarrow> int \<Rightarrow> string \<Rightarrow> error + string" where
  "formatDateParts h date timeZone = DateTimeFormat_en_CA h date timeZone"

definition getLocalDateString :: "host \<Rightarrow> string option \<Rightarrow> string \<Rightarrow> error + string" where
  "getLocalDateString h validTimeLocal' timeZone =
     (let date = (case validTimeLocal' of
                    None \<Rightarrow> Some (Date_now h)
                  | Some s \<Rightarrow> if s = [] then Some (Date_now h) else Date_parse h s);
          safeDate = (case date of None \<Rightarrow> Date_now h | Some t \<Rightarrow> t)
      in formatDateParts h safeDate timeZone)"

text \<open>
  \<open>path.join\<close> of two strings, as the POSIX variant of Node does it: the two are joined
  by a slash and the result is normalised. The segments between slashes are read from
  left to right; an empty segment and \<open>.\<close> are dropped, \<open>..\<close> removes the segment before
  it, and stays where there is none to remove and the path is relative.
\<close>

fun split_slash :: "string \<Rightarrow> string list" where
  "split_slash [] = [[]]"
| "split_slash (c # cs) =
     (if c = CHR ''/'' then [] # split_slash cs
      else (case split_slash cs of s # ss \<Rightarrow> (c # s) # ss | [] \<Rightarrow> [[c]]))"

fun norm_segs :: "bool \<Rightarrow> string list \<Rightarrow> string list \<Rightarrow> string list" where
  "norm_segs allowAboveRoot st [] = rev st"
| "norm_segs allowAboveRoot st (s # ss) =
     (if s = [] \<or> s = ''.'' then norm_segs allowAboveRoot st ss
      else if s = ''..'' then
        (case st of
           t # ts \<Rightarrow> if t \<noteq> ''..'' then norm_segs allowAboveRoot ts ss
                     else norm_segs allowAboveRoot (if allowAboveRoot then s # st else st) ss
         | [] \<Rightarrow> norm_segs allowAboveRoot (if allowAboveRoot then [s] else []) ss)
      else norm_segs allowAboveRoot (s # st) ss)"

fun join_slash :: "string list \<Rightarrow> string" where
  "join_slash [] = []"
| "join_slash [s] = s"
| "join_slash (s # t # ss) = s @ ''/'' @ join_slash (t # ss)"

definition path_normalize :: "string \<Rightarrow> string" where
  "path_normalize path =
     (if path = [] then ''.''
      else let isAbsolute = (hd path = CHR ''/'');
               trailingSeparator = (last path = CHR ''/'');
               p = join_slash (norm_segs (\<not> isAbsolute) [] (split_slash path))
           in if p = [] then (if isAbsolute then ''/'' else if trailingSeparator then ''./'' else ''.'')
              else (if isAbsolute then ''/'' else []) @ p @ (if trailingSeparator then ''/'' else []))"

definition path_join :: "string \<Rightarrow> string \<Rightarrow> string" where
  "path_join a b =
     (if a = [] \<and> b = [] then ''.''
      else path_normalize (if a = [] then b else if b = [] then a else a @ ''/'' @ b))"

definition buildJsonlPath :: "string \<Rightarrow> string \<Rightarrow> string" where
  "buildJsonlPath outputDir dateLocal =
     path_join outputDir (''wu_current_london_'' @ dateLocal @ ''.jsonl'')"

definition buildDailyHighPath :: "string \<Rightarrow> string \<Rightarrow> string" where
  "buildDailyHighPath outputDir dateLocal =
     path_join outputDir (''wu_daily_high_'' @ dateLocal @ ''.json'')"

text \<open>
  \<open>calculateNextDelay\<close>, with \<open>Date.now ()\<close> read from the host. Every operation is
  the one on doubles.
\<close>

definition calculateNextDelay :: "host \<Rightarrow> real \<Rightarrow> number" where
  "calculateNextDelay h intervalMinutes =
     (let intervalMs = num_mul (num_mul (Finite intervalMinutes) (Finite 60)) (Finite 1000);
          now = Finite (real_of_int (Date_now h));
          next = num_mul (num_ceil (num_div now intervalMs)) intervalMs
      in num_max (num_sub next now) (Finite 0))"

section \<open>wu-current-logger.ts\<close>

definition DEFAULT_POLL_MINUTES :: real where "DEFAULT_POLL_MINUTES = 10"
definition DEFAULT_OUTPUT_DIR :: string where "DEFAULT_OUTPUT_DIR = ''./data''"
definition DEFAULT_TARGET_ID :: string where "DEFAULT_TARGET_ID = ''51.50999832,-0.13''"
definition DEFAULT_TIMEZONE :: string where "DEFAULT_TIMEZONE = ''Europe/London''"
definition DEFAULT_FETCH_TIMEOUT_MS :: real where "DEFAULT_FETCH_TIMEOUT_MS = 15000"

definition BASE_URL :: string where
  "BASE_URL = ''https://api.weather.com/v3/aggcommon/v3alertsHeadlines;v3-wx-observations-current;v3-location-point''"

type_synonym env = "string \<Rightarrow> string option"

definition getEnvVar :: "host \<Rightarrow> env \<Rightarrow> string \<Rightarrow> string option \<Rightarrow> string option" where
  "getEnvVar h env name fallback =
     (case env name of
        None \<Rightarrow> fallback
      | Some v \<Rightarrow>
          if v \<noteq> [] \<and> 0 < length (String_trim h v) then Some (String_trim h v) else fallback)"

text \<open>The cast \<open>as string\<close> of a \<open>getEnvVar\<close> that was given a fallback.\<close>

definition as_string :: "string option \<Rightarrow> string" where
  "as_string v = (case v of Some s \<Rightarrow> s | None \<Rightarrow> ''undefined'')"

definition getPollMinutes :: "host \<Rightarrow> env \<Rightarrow> real" where
  "getPollMinutes h env =
     (case getEnvVar h env ''POLL_MINUTES'' None of
        None \<Rightarrow> DEFAULT_POLL_MINUTES
      | Some raw \<Rightarrow>
          if raw = [] then DEFAULT_POLL_MINUTES
          else (case parseInt10 h raw of
                  Finite parsed \<Rightarrow> if 0 < parsed then parsed else DEFAULT_POLL_MINUTES
                | _ \<Rightarrow> DEFAULT_POLL_MINUTES))"

definition getFetchTimeoutMs :: "host \<Rightarrow> env \<Rightarrow> real" where
  "getFetchTimeoutMs h env =
     (case getEnvVar h env ''FETCH_TIMEOUT_MS'' None of
        None \<Rightarrow> DEFAULT_FETCH_TIMEOUT_MS
      | Some raw \<Rightarrow>
          if raw = [] then DEFAULT_FETCH_TIMEOUT_MS
          else (case parseInt10 h raw of
                  Finite parsed \<Rightarrow> if 0 < parsed then parsed else DEFAULT_FETCH_TIMEOUT_MS
                | _ \<Rightarrow> DEFAULT_FETCH_TIMEOUT_MS))"

definition buildUrl :: "host \<Rightarrow> env \<Rightarrow> error + string" where
  "buildUrl h env =
     (case (getEnvVar h env ''WU_API_KEY'' None, getEnvVar h env ''WU_GEOCODES'' None) of
        (Some apiKey, Some geocodes) \<Rightarrow>
          if apiKey = [] \<or> geocodes = [] then Inl (Error ''WU_API_KEY and WU_GEOCODES must be set'')
          else Inr (BASE_URL @ ''?'' @ URLSearchParams_toString h
                 [(''apiKey'', apiKey), (''geocodes'', geocodes), (''units'', ''m''),
                  (''format'', ''json''), (''language'', ''en-US'')])
      | _ \<Rightarrow> Inl (Error ''WU_API_KEY and WU_GEOCODES must be set''))"

subsection \<open>fetchWithRetry\<close>

text \<open>
  What \<open>response.json ()\<close> resolves to, as far as \<open>logOnce\<close> looks: something that is not
  an array, or an array, read at the type \<open>CompositeEntry[]\<close> it is cast to.
\<close>

datatype payload = Not_array | Entries "CompositeEntry list"

text \<open>
  One request: \<open>fetch\<close> rejects (the network, or the abort at the timeout), or it
  resolves to a response with its \<open>ok\<close> flag, its status and what \<open>json ()\<close> gives.
  The transport tells the outcome of the request of each attempt, for a URL and a timeout.
\<close>

datatype http = Fetch_rejects error | Response bool nat "error + payload"

type_synonym transport = "string \<Rightarrow> real \<Rightarrow> nat \<Rightarrow> http"

text \<open>The \<open>try\<close> block of the loop body.\<close>

definition attempt_once :: "http \<Rightarrow> error + payload" where
  "attempt_once r =
     (case r of
        Fetch_rejects e \<Rightarrow> Inl e
      | Response ok status body \<Rightarrow> if \<not> ok then Inl (WeatherCom_error status) else body)"

text \<open>What the function does besides returning, in order.\<close>

datatype event = Fetch nat | Console_error nat error | Sleep nat

text \<open>
  The \<open>for\<close> loop, from the state \<open>attempt\<close>, \<open>lastError\<close> and the events so far, up
  to the \<open>throw lastError\<close> after it.
\<close>

function fetch_loop ::
  "transport \<Rightarrow> string \<Rightarrow> nat \<Rightarrow> real \<Rightarrow> nat \<Rightarrow> error \<Rightarrow> event list \<Rightarrow> event list \<times> (error + payload)" where
  "fetch_loop net url attempts timeoutMs attempt lastError evs =
     (if attempt \<le> attempts then
        (case attempt_once (net url timeoutMs attempt) of
           Inr data \<Rightarrow> (evs @ [Fetch attempt], Inr data)
         | Inl e \<Rightarrow>
             (let backoffMs = 500 * 2 ^ (attempt - 1)
              in fetch_loop net url attempts timeoutMs (attempt + 1) e
                   (evs @ [Fetch attempt, Console_error attempt e, Sleep backoffMs])))
      else (evs, Inl lastError))"
  by pat_completeness auto
termination
  by (relation "measure (\<lambda>(net, url, attempts, timeoutMs, attempt, lastError, evs). Suc attempts - attempt)") auto

declare fetch_loop.simps [simp del]

definition fetchWithRetry ::
  "transport \<Rightarrow> string \<Rightarrow> nat \<Rightarrow> real \<Rightarrow> event list \<times> (error + payload)" where
  "fetchWithRetry net url attempts timeoutMs =
     fetch_loop net url attempts timeoutMs 1 Thrown_undefined []"

subsection \<open>logOnce\<close>

text \<open>\<open>ensureOutputDir\<close>: directories are not part of the file system of this model.\<close>

definition ensureOutputDir :: "fs \<Rightarrow> string \<Rightarrow> fs" where
  "ensureOutputDir files outputDir = files"

text \<open>The conversion of a value to a string that \<open>+\<close> applies to an array or an object.\<close>

fun join_comma :: "string list \<Rightarrow> string" where
  "join_comma [] = []"
| "join_comma [s] = s"
| "join_comma (s # t # ss) = s @ '','' @ join_comma (t # ss)"

fun js_toString :: "(number \<Rightarrow> string) \<Rightarrow> jsval \<Rightarrow> string" where
  "js_toString f Undefined = ''undefined''"
| "js_toString f Null = ''null''"
| "js_toString f (Bool b) = (if b then ''true'' else ''false'')"
| "js_toString f (Num n) = f n"
| "js_toString f (Str s) = s"
| "js_toString f (Arr vs) =
     join_comma (map (\<lambda>v. if v = Undefined \<or> v = Null then [] else js_toString f v) vs)"
| "js_toString f (Obj kvs) = ''[object Object]''"

text \<open>
  \<open>v + 1\<close>: the sum where \<open>v\<close> is a number, a boolean or \<open>null\<close>, and the
  concatenation with \<open>"1"\<close> where it is a string, an array or an object.
\<close>

fun plus_one :: "host \<Rightarrow> jsval \<Rightarrow> jsval" where
  "plus_one h Undefined = Num NaN"
| "plus_one h Null = Num (Finite 1)"
| "plus_one h (Bool b) = Num (Finite (if b then 2 else 1))"
| "plus_one h (Num n) = Num (num_add n (Finite 1))"
| "plus_one h (Str s) = Str (s @ ''1'')"
| "plus_one h v = Str (js_toString (Number_toString h) v @ ''1'')"

text \<open>The object \<open>record\<close> that \<open>logOnce\<close> appends to the day's log.\<close>

definition sample_record ::
  "host \<Rightarrow> CompositeEntry \<Rightarrow> string \<Rightarrow> Location \<Rightarrow> ObservationsCurrent \<Rightarrow> jsval" where
  "sample_record h entry targetId loc observation = Obj
     [(''ts_utc'', Str (toISOString h (Date_now h))),
      (''id'', Str (case entry_id entry of Some i \<Rightarrow> i | None \<Rightarrow> targetId)),
      (''city'', of_nullable_string (city loc)),
      (''displayContext'', of_nullable_string (displayContext loc)),
      (''ianaTimeZone'', of_nullable_string (ianaTimeZone loc)),
      (''pwsId'', of_nullable_string (pwsId loc)),
      (''validTimeUtc'', of_nullable_number (validTimeUtc observation)),
      (''validTimeLocal'', of_nullable_string (validTimeLocal observation)),
      (''temperatureC'', of_nullable_number (temperature observation)),
      (''temperatureMax24Hour'', of_nullable_number (temperatureMax24Hour observation)),
      (''temperatureMin24Hour'', of_nullable_number (temperatureMin24Hour observation)),
      (''relativeHumidity'', of_nullable_number (relativeHumidity observation)),
      (''windSpeed'', of_nullable_number (windSpeed observation)),
      (''windDirectionCardinal'', of_nullable_string (windDirectionCardinal observation)),
      (''pressureMeanSeaLevel'', of_nullable_number (pressureMeanSeaLevel observation)),
      (''wxPhraseLong'', of_nullable_string (wxPhraseLong observation))]"

text \<open>
  Lines 159 to 182 of \<open>logOnce\<close>: the object \<open>updatedDailyHigh\<close>, from the aggregate
  that was read, \<open>record.temperatureC\<close>, \<open>record.validTimeLocal\<close>, the day and the zone.
\<close>

definition updatedDailyHigh ::
  "host \<Rightarrow> DailyHighRecord \<Rightarrow> number option \<Rightarrow> string option \<Rightarrow> string \<Rightarrow> string \<Rightarrow> DailyHighRecord" where
  "updatedDailyHigh h dailyHigh temperatureC validTimeLocal' dateLocal timeZone =
     (let updatedSamples = plus_one h (samples dailyHigh);
          highTemperature = high_temperatureC dailyHigh;
          highAt = high_at_validTimeLocal dailyHigh;
          (highTemperature', highAt') =
            (case temperatureC of
               Some t \<Rightarrow>
                 if highTemperature = None \<or> (case highTemperature of Some hi \<Rightarrow> num_gt t hi | None \<Rightarrow> False)
                 then (Some t, nullish (of_nullable_string validTimeLocal') highAt)
                 else (highTemperature, highAt)
             | None \<Rightarrow> (highTemperature, highAt))
      in \<lparr>date_local = Str dateLocal,
          timezone = Str timeZone,
          samples = updatedSamples,
          high_temperatureC = highTemperature',
          high_at_validTimeLocal = nullish highAt' Null,
          last_seen_temperatureC = temperatureC,
          last_seen_validTimeLocal = nullish (of_nullable_string validTimeLocal') Null\<rparr>)"

text \<open>How a cycle ends: one of the four early returns, a rejection, or the write.\<close>

datatype outcome =
    Fetch_failed error
  | Not_an_array
  | Target_not_found
  | Missing_data
  | Rejected error
  | Completed

definition logOnce :: "host \<Rightarrow> env \<Rightarrow> transport \<Rightarrow> fs \<Rightarrow> outcome \<times> fs" where
  "logOnce h env net files =
     (let outputDir = as_string (getEnvVar h env ''OUTPUT_DIR'' (Some DEFAULT_OUTPUT_DIR));
          targetId = as_string (getEnvVar h env ''TARGET_LOCATION_ID'' (Some DEFAULT_TARGET_ID));
          timeZone = as_string (getEnvVar h env ''TIMEZONE'' (Some DEFAULT_TIMEZONE));
          fetchTimeoutMs = getFetchTimeoutMs h env;
          files1 = ensureOutputDir files outputDir
      in case bindE (buildUrl h env) (\<lambda>url. snd (fetchWithRetry net url 3 fetchTimeoutMs)) of
           Inl e \<Rightarrow> (Fetch_failed e, files1)
         | Inr Not_array \<Rightarrow> (Not_an_array, files1)
         | Inr (Entries data) \<Rightarrow>
             (case selectLocation data targetId of
                None \<Rightarrow> (Target_not_found, files1)
              | Some entry \<Rightarrow>
                  (case (entry_location entry, v3_wx_observations_current entry) of
                     (Some loc, Some observation) \<Rightarrow>
                       (case getLocalDateString h (validTimeLocal observation) timeZone of
                          Inl e \<Rightarrow> (Rejected e, files1)
                        | Inr dateLocal \<Rightarrow>
                            (let jsonlPath = buildJsonlPath outputDir dateLocal;
                                 files2 = appendFile files1 jsonlPath
                                            (sample_record h entry targetId loc observation);
                                 dailyHighPath = buildDailyHighPath outputDir dateLocal;
                                 dailyHigh = readDailyHigh files2 dailyHighPath dateLocal timeZone;
                                 updated = updatedDailyHigh h dailyHigh (temperature observation)
                                             (validTimeLocal observation) dateLocal timeZone
                             in (Completed, writeDailyHigh files2 dailyHighPath updated)))
                   | _ \<Rightarrow> (Missing_data, files1))))"

subsection \<open>startLogger\<close>

text \<open>
  What \<open>startLogger\<close> does, in order: the alignment sleep when the delay is positive,
  the first cycle, and then the interval timer, or the \<open>catch\<close> when the awaited first
  cycle rejects. The outcome of the first cycle is given.
\<close>

datatype sched_event = Align_sleep number | First_cycle | Set_interval number | Logger_failed error

definition startLogger :: "host \<Rightarrow> env \<Rightarrow> outcome \<Rightarrow> sched_event list" where
  "startLogger h env first =
     (let pollMinutes = getPollMinutes h env;
          initialDelay = calculateNextDelay h pollMinutes
      in (if num_gt initialDelay (Finite 0) then [Align_sleep initialDelay] else [])
         @ [First_cycle]
         @ (case first of
              Rejected e \<Rightarrow> [Logger_failed e]
            | _ \<Rightarrow> [Set_interval (num_mul (num_mul (Finite pollMinutes) (Finite 60)) (Finite 1000))]))"

section \<open>Concrete inputs\<close>

text \<open>
  A host for the examples: the clock stands at 2024-05-01T12:00:00Z, the formatter
  knows the zone \<open>Europe/London\<close>, and \<open>trim\<close> is the one of strings whose white space
  is ASCII.
\<close>

definition is_space :: "char \<Rightarrow> bool" where
  "is_space c = (c \<in> set [CHR '' '', CHR 0x09, CHR 0x0A, CHR 0x0B, CHR 0x0C, CHR 0x0D])"

definition ascii_trim :: "string \<Rightarrow> string" where
  "ascii_trim s = rev (dropWhile is_space (rev (dropWhile is_space s)))"

definition example_host :: host where
  "example_host =
     \<lparr>Date_now = 1714564800000,
      Date_parse = (\<lambda>s. if s = ''2024-05-01T12:00:00'' then Some 1714564800000 else None),
      DateTimeFormat_en_CA = (\<lambda>t z. if z = ''Europe/London'' then Inr ''2024-05-01'' else Inl RangeError),
      toISOString = (\<lambda>t. ''2024-05-01T12:00:00.000Z''),
      parseInt10 = (\<lambda>s. if s = ''10'' then Finite 10 else NaN),
      String_trim = ascii_trim,
      Number_toString = (\<lambda>n. ''0''),
      URLSearchParams_toString = (\<lambda>kvs. concat (map (\<lambda>kv. fst kv @ ''='' @ snd kv @ ''&'') kvs))\<rparr>"

definition example_env :: env where
  "example_env = (\<lambda>name. if name = ''WU_API_KEY'' then Some ''key''
                           else if name = ''WU_GEOCODES'' then Some ''51.51,-0.13'' else None)"

definition london :: Location where
  "london = \<lparr>city = Some ''London'', displayContext = None, ianaTimeZone = None, pwsId = None,
             countryCode = Some ''GB''\<rparr>"

definition paris :: Location where
  "paris = \<lparr>city = Some ''Paris'', displayContext = None, ianaTimeZone = None, pwsId = None,
            countryCode = Some ''FR''\<rparr>"

definition reading :: "number option \<Rightarrow> string option \<Rightarrow> ObservationsCurrent" where
  "reading t v =
     \<lparr>temperature = t, validTimeUtc = None, validTimeLocal = v, temperatureMax24Hour = None,
      temperatureMin24Hour = None, relativeHumidity = None, windSpeed = None,
      windDirectionCardinal = None, pressureMeanSeaLevel = None, wxPhraseLong = None\<rparr>"

definition entry_of :: "string option \<Rightarrow> Location \<Rightarrow> CompositeEntry" where
  "entry_of i l =
     \<lparr>entry_id = i,
      v3_location_point = Some \<lparr>location = Some l\<rparr>,
      v3_wx_observations_current = Some (reading (Some (Finite 18.2)) (Some ''2024-05-01T12:00:00''))\<rparr>"

definition example_net :: transport where
  "example_net =
     (\<lambda>url timeoutMs attempt.
        Response True 200 (Inr (Entries [entry_of (Some ''51.50999832,-0.13'') london])))"

text \<open>
  A file system whose only file is the aggregate of 2024-05-01, holding the given
  \<open>samples\<close>, a high that is not a number, and no other field.
\<close>

definition example_files :: "jsval \<Rightarrow> fs" where
  "example_files n =
     (\<lambda>p. if p = ''./data/wu_daily_high_2024-05-01.json''
          then Some (Json_text (Obj [(''samples'', n), (''high_temperatureC'', Str ''hot'')]))
          else None)"

definition example_record :: "number option \<Rightarrow> jsval \<Rightarrow> DailyHighRecord" where
  "example_record hi hi_at =
     \<lparr>date_local = Str ''2024-05-01'',
      timezone = Str ''Europe/London'',
      samples = Num (Finite 1),
      high_temperatureC = hi,
      high_at_validTimeLocal = hi_at,
      last_seen_temperatureC = Some (Finite 10),
      last_seen_validTimeLocal = Str ''2024-05-01T09:00:00''\<rparr>"

text \<open>
  A file system whose only file is the aggregate of 2024-05-01 as \<open>writeDailyHigh\<close>
  leaves it, at the path that \<open>logOnce\<close> builds for that day under the default output
  directory, with the given \<open>samples\<close> and a high of 20 degrees.
\<close>

definition aggregate_files :: "jsval \<Rightarrow> fs" where
  "aggregate_files n =
     (\<lambda>p. if p = ''data/wu_daily_high_2024-05-01.json''
          then Some (JSON_stringify (record_object
                 ((example_record (Some (Finite 20)) (Str ''2024-05-01T09:00:00''))\<lparr>samples := n\<rparr>)))
          else None)"

text \<open>
  A transport that answers every request with a status that is not ok: 501 to the first
  attempt, 502 to the second, and so on. The time a list of events spends in \<open>sleep\<close>.
\<close>

definition failing_net :: transport where
  "failing_net = (\<lambda>url timeoutMs attempt. Response False (500 + attempt) (Inl SyntaxError))"

fun slept :: "event \<Rightarrow> nat" where
  "slept (Sleep ms) = ms"
| "slept e = 0"

definition total_backoff :: "event list \<Rightarrow> nat" where
  "total_backoff evs = sum_list (map slept evs)"

text \<open>The empty file system, and one where every file holds text that is not JSON.\<close>

definition no_files :: fs where
  "no_files = (\<lambda>p. None)"

definition corrupt_files :: fs where
  "corrupt_files = (\<lambda>p. Some Not_json)"

text \<open>A parsed value has no property of the name: reading it gives \<open>undefined\<close>, or throws.\<close>

definition property_missing :: "jsval \<Rightarrow> string \<Rightarrow> bool" where
  "property_missing v k = (get_prop v k = Inr Undefined \<or> get_prop v k = Inl TypeError)"

section \<open>Loading and saving the aggregate\<close>

lemmas example_defs = example_host_def example_env_def london_def paris_def reading_def entry_of_def
  example_net_def example_files_def example_record_def no_files_def corrupt_files_def
  aggregate_files_def

lemma readFile_writeFile: "readFile (writeFile files p t) p = Inr t"
  by (simp add: readFile_def writeFile_def)

text \<open>
  Claim C4. When \<open>readFile\<close> fails, or \<open>JSON.parse\<close> fails on what was read,
  \<open>readDailyHigh\<close> still returns a record: the one with the fallback day and zone, zero
  samples and the four nullable fields \<open>null\<close>.
\<close>

theorem readDailyHigh_fallback:
  assumes "readFile files p = Inl e \<or> (\<exists>raw. readFile files p = Inr raw \<and> JSON_parse raw = Inl e)"
  shows "readDailyHigh files p d z =
     \<lparr>date_local = Str d, timezone = Str z, samples = Num (Finite 0), high_temperatureC = None,
      high_at_validTimeLocal = Null, last_seen_temperatureC = None, last_seen_validTimeLocal = Null\<rparr>"
  using assms by (auto simp: readDailyHigh_def readDailyHigh_try_def bindE_def fresh_record_def)

theorem readDailyHigh_fallback_witness:
  "readFile no_files ''./data/wu_daily_high_2024-05-01.json'' = Inl ENOENT \<and>
   readDailyHigh no_files ''./data/wu_daily_high_2024-05-01.json'' ''2024-05-01'' ''Europe/London'' =
     \<lparr>date_local = Str ''2024-05-01'', timezone = Str ''Europe/London'', samples = Num (Finite 0),
      high_temperatureC = None, high_at_validTimeLocal = Null, last_seen_temperatureC = None,
      last_seen_validTimeLocal = Null\<rparr> \<and>
   readFile corrupt_files ''f'' = Inr Not_json \<and> JSON_parse Not_json = Inl SyntaxError \<and>
   readDailyHigh corrupt_files ''f'' ''2024-05-01'' ''Europe/London'' =
     \<lparr>date_local = Str ''2024-05-01'', timezone = Str ''Europe/London'', samples = Num (Finite 0),
      high_temperatureC = None, high_at_validTimeLocal = Null, last_seen_temperatureC = None,
      last_seen_validTimeLocal = Null\<rparr>"
proof -
  have missing: "readFile no_files ''./data/wu_daily_high_2024-05-01.json'' = Inl ENOENT"
    by (simp add: readFile_def no_files_def)
  have corrupt: "readFile corrupt_files ''f'' = Inr Not_json" "JSON_parse Not_json = Inl SyntaxError"
    by (simp_all add: readFile_def corrupt_files_def)
  from corrupt have "\<exists>raw. readFile corrupt_files ''f'' = Inr raw \<and> JSON_parse raw = Inl SyntaxError"
    by simp
  then show ?thesis
    using missing corrupt
      readDailyHigh_fallback [of no_files "''./data/wu_daily_high_2024-05-01.json''" ENOENT
        "''2024-05-01''" "''Europe/London''"]
      readDailyHigh_fallback [of corrupt_files "''f''" SyntaxError "''2024-05-01''" "''Europe/London''"]
    by simp
qed

lemma map_of_json_fields:
  "distinct (map fst kvs) \<Longrightarrow>
   map_of (map (\<lambda>kv. (fst kv, json_image (snd kv))) (filter (\<lambda>kv. snd kv \<noteq> Undefined) kvs)) k =
     (case map_of kvs k of None \<Rightarrow> None | Some v \<Rightarrow> if v = Undefined then None else Some (json_image v))"
proof (induction kvs)
  case Nil
  show ?case by simp
next
  case (Cons kv kvs)
  then have IH: "map_of (map (\<lambda>kv. (fst kv, json_image (snd kv))) (filter (\<lambda>kv. snd kv \<noteq> Undefined) kvs)) k =
     (case map_of kvs k of None \<Rightarrow> None | Some v \<Rightarrow> if v = Undefined then None else Some (json_image v))"
    and fresh: "fst kv \<notin> fst ` set kvs" by simp_all
  from fresh have none: "map_of kvs (fst kv) = None" by (simp add: map_of_eq_None_iff)
  show ?case
  proof (cases "k = fst kv")
    case True
    with none IH show ?thesis by (cases kv) simp
  next
    case False
    with IH show ?thesis by (cases kv) simp
  qed
qed

lemma get_prop_json_image:
  "distinct (map fst kvs) \<Longrightarrow>
   get_prop (json_image (Obj kvs)) k =
     Inr (case map_of kvs k of None \<Rightarrow> Undefined | Some v \<Rightarrow> if v = Undefined then Undefined else json_image v)"
  by (simp add: map_of_json_fields split: option.splits)

lemma nullish_json_image: "nullish (if v = Undefined then Undefined else json_image v) d = nullish (json_image v) d"
  by (simp add: nullish_def)

lemma number_or_null_json_image:
  "number_or_null (if of_nullable_number n = Undefined then Undefined else json_image (of_nullable_number n)) =
     (case n of None \<Rightarrow> None | Some x \<Rightarrow> if is_finite x then Some x else None)"
  by (cases n) simp_all

lemma record_object_distinct: "record_object r = Obj kvs \<Longrightarrow> distinct (map fst kvs)"
  by (auto simp: record_object_def)

lemma readDailyHigh_written:
  assumes "readFile files p = Inr (JSON_stringify (record_object r))"
  shows "readDailyHigh files p d z =
     \<lparr>date_local = nullish (json_image (date_local r)) (Str d),
      timezone = nullish (json_image (timezone r)) (Str z),
      samples = nullish (json_image (samples r)) (Num (Finite 0)),
      high_temperatureC = (case high_temperatureC r of None \<Rightarrow> None | Some x \<Rightarrow> if is_finite x then Some x else None),
      high_at_validTimeLocal = nullish (json_image (high_at_validTimeLocal r)) Null,
      last_seen_temperatureC = (case last_seen_temperatureC r of None \<Rightarrow> None | Some x \<Rightarrow> if is_finite x then Some x else None),
      last_seen_validTimeLocal = nullish (json_image (last_seen_validTimeLocal r)) Null\<rparr>"
proof -
  obtain kvs where kvs: "record_object r = Obj kvs"
    by (simp add: record_object_def)
  have d: "distinct (map fst kvs)" using kvs by (rule record_object_distinct)
  have m: "map_of kvs ''date_local'' = Some (date_local r)"
    "map_of kvs ''timezone'' = Some (timezone r)"
    "map_of kvs ''samples'' = Some (samples r)"
    "map_of kvs ''high_temperatureC'' = Some (of_nullable_number (high_temperatureC r))"
    "map_of kvs ''high_at_validTimeLocal'' = Some (high_at_validTimeLocal r)"
    "map_of kvs ''last_seen_temperatureC'' = Some (of_nullable_number (last_seen_temperatureC r))"
    "map_of kvs ''last_seen_validTimeLocal'' = Some (last_seen_validTimeLocal r)"
    using kvs by (auto simp: record_object_def)
  have parse: "JSON_parse (JSON_stringify (record_object r)) = Inr (json_image (Obj kvs))"
    by (simp add: JSON_stringify_def kvs)
  show ?thesis
    unfolding readDailyHigh_def readDailyHigh_try_def assms bindE_def
    by (simp only: option.case sum.case parse get_prop_json_image [OF d] m
        nullish_json_image number_or_null_json_image)
qed

text \<open>
  Claim C9, as stated: saving any well-typed record and loading it again gives the record
  back. It fails where a number of the record is not finite: \<open>JSON.stringify\<close> writes
  \<open>Infinity\<close> and \<open>NaN\<close> as \<open>null\<close>. Here a high of \<open>Infinity\<close> comes back as \<open>null\<close>.
\<close>

theorem save_load_roundtrip_counterexample:
  "well_typed (example_record (Some PosInfinity) (Str ''2024-05-01T09:00:00'')) \<and>
   readDailyHigh (writeDailyHigh no_files ''f'' (example_record (Some PosInfinity) (Str ''2024-05-01T09:00:00'')))
     ''f'' ''2024-05-01'' ''Europe/London'' \<noteq> example_record (Some PosInfinity) (Str ''2024-05-01T09:00:00'') \<and>
   high_temperatureC (readDailyHigh (writeDailyHigh no_files ''f'' (example_record (Some PosInfinity) (Str ''2024-05-01T09:00:00'')))
     ''f'' ''2024-05-01'' ''Europe/London'') = None"
  by (simp add: well_typed_def example_record_def readDailyHigh_def readDailyHigh_try_def writeDailyHigh_def
       readFile_writeFile JSON_stringify_def record_object_def bindE_def nullish_def)

text \<open>
  Claim C9, amended: saving a well-typed record whose numbers are all finite and loading
  it again from the same path, with any fallback day and zone, gives the record back.
\<close>

theorem save_load_roundtrip:
  assumes "well_typed r" "finite_numbers r"
  shows "readDailyHigh (writeDailyHigh files p r) p d z = r"
proof -
  have rd: "readFile (writeDailyHigh files p r) p = Inr (JSON_stringify (record_object r))"
    by (simp add: writeDailyHigh_def readFile_writeFile)
  have str: "nullish (json_image v) dflt = v" if "case v of Str s \<Rightarrow> True | _ \<Rightarrow> False" for v dflt
    using that by (cases v) (simp_all add: nullish_def)
  have nstr: "nullish (json_image v) Null = v" if "case v of Null \<Rightarrow> True | Str s \<Rightarrow> True | _ \<Rightarrow> False" for v
    using that by (cases v) (simp_all add: nullish_def)
  have num: "nullish (json_image v) dflt = v"
    if "case v of Num n \<Rightarrow> True | _ \<Rightarrow> False" "case v of Num n \<Rightarrow> is_finite n | _ \<Rightarrow> True" for v dflt
    using that by (cases v) (simp_all add: nullish_def)
  have opt: "(case t of None \<Rightarrow> None | Some x \<Rightarrow> if is_finite x then Some x else None) = t"
    if "case t of Some n \<Rightarrow> is_finite n | None \<Rightarrow> True" for t
    using that by (cases t) simp_all
  from assms have
    "nullish (json_image (date_local r)) (Str d) = date_local r"
    "nullish (json_image (timezone r)) (Str z) = timezone r"
    "nullish (json_image (samples r)) (Num (Finite 0)) = samples r"
    "(case high_temperatureC r of None \<Rightarrow> None | Some x \<Rightarrow> if is_finite x then Some x else None) = high_temperatureC r"
    "nullish (json_image (high_at_validTimeLocal r)) Null = high_at_validTimeLocal r"
    "(case last_seen_temperatureC r of None \<Rightarrow> None | Some x \<Rightarrow> if is_finite x then Some x else None) = last_seen_temperatureC r"
    "nullish (json_image (last_seen_validTimeLocal r)) Null = last_seen_validTimeLocal r"
    by (simp_all add: well_typed_def finite_numbers_def str nstr num opt)
  then show ?thesis
    by (simp add: readDailyHigh_written [OF rd])
qed

theorem save_load_roundtrip_witness:
  "well_typed (example_record (Some (Finite 15)) (Str ''2024-05-01T09:00:00'')) \<and>
   finite_numbers (example_record (Some (Finite 15)) (Str ''2024-05-01T09:00:00'')) \<and>
   readDailyHigh (writeDailyHigh no_files ''f'' (example_record (Some (Finite 15)) (Str ''2024-05-01T09:00:00'')))
     ''f'' ''1970-01-01'' ''UTC'' = example_record (Some (Finite 15)) (Str ''2024-05-01T09:00:00'')"
proof -
  have w: "well_typed (example_record (Some (Finite 15)) (Str ''2024-05-01T09:00:00''))"
    by (simp add: well_typed_def example_record_def)
  have f: "finite_numbers (example_record (Some (Finite 15)) (Str ''2024-05-01T09:00:00''))"
    by (simp add: finite_numbers_def example_record_def)
  from save_load_roundtrip [OF w f] w f show ?thesis by simp
qed

text \<open>
  Claim C10. For every file whose text parses, the record that \<open>readDailyHigh\<close> returns
  has no \<open>undefined\<close> field; a field the parsed value lacks is the fallback (the day,
  the zone, zero samples, \<open>null\<close> time stamps); and each of the two temperatures is the
  number of the file where the file has a number there, and \<open>null\<close> for anything else.
\<close>

lemma get_prop_cases:
  "(parsed = Undefined \<or> parsed = Null) \<and> (\<forall>k. get_prop parsed k = Inl TypeError) \<or>
   parsed \<noteq> Undefined \<and> parsed \<noteq> Null \<and> (\<forall>k. \<exists>v. get_prop parsed k = Inr v)"
  by (cases parsed) simp_all

theorem readDailyHigh_sanitizes:
  assumes "readFile files p = Inr raw" and "JSON_parse raw = Inr parsed"
  shows "let r = readDailyHigh files p d z
         in date_local r \<noteq> Undefined \<and> timezone r \<noteq> Undefined \<and> samples r \<noteq> Undefined \<and>
            high_at_validTimeLocal r \<noteq> Undefined \<and> last_seen_validTimeLocal r \<noteq> Undefined \<and>
            (property_missing parsed ''date_local'' \<longrightarrow> date_local r = Str d) \<and>
            (property_missing parsed ''timezone'' \<longrightarrow> timezone r = Str z) \<and>
            (property_missing parsed ''samples'' \<longrightarrow> samples r = Num (Finite 0)) \<and>
            (property_missing parsed ''high_at_validTimeLocal'' \<longrightarrow> high_at_validTimeLocal r = Null) \<and>
            (property_missing parsed ''last_seen_validTimeLocal'' \<longrightarrow> last_seen_validTimeLocal r = Null) \<and>
            high_temperatureC r =
              (case get_prop parsed ''high_temperatureC'' of Inr (Num n) \<Rightarrow> Some n | _ \<Rightarrow> None) \<and>
            last_seen_temperatureC r =
              (case get_prop parsed ''last_seen_temperatureC'' of Inr (Num n) \<Rightarrow> Some n | _ \<Rightarrow> None)"
proof (cases "parsed = Undefined \<or> parsed = Null")
  case True
  then have "get_prop parsed k = Inl TypeError" for k by auto
  then show ?thesis
    by (simp add: readDailyHigh_def readDailyHigh_try_def assms bindE_def fresh_record_def)
next
  case False
  with get_prop_cases [of parsed] have ex: "\<exists>v. get_prop parsed k = Inr v" for k by blast
  from ex obtain v1 where v1: "get_prop parsed ''date_local'' = Inr v1" by blast
  from ex obtain v2 where v2: "get_prop parsed ''timezone'' = Inr v2" by blast
  from ex obtain v3 where v3: "get_prop parsed ''samples'' = Inr v3" by blast
  from ex obtain v4 where v4: "get_prop parsed ''high_temperatureC'' = Inr v4" by blast
  from ex obtain v5 where v5: "get_prop parsed ''high_at_validTimeLocal'' = Inr v5" by blast
  from ex obtain v6 where v6: "get_prop parsed ''last_seen_temperatureC'' = Inr v6" by blast
  from ex obtain v7 where v7: "get_prop parsed ''last_seen_validTimeLocal'' = Inr v7" by blast
  have r: "readDailyHigh files p d z =
     \<lparr>date_local = nullish v1 (Str d), timezone = nullish v2 (Str z),
      samples = nullish v3 (Num (Finite 0)), high_temperatureC = number_or_null v4,
      high_at_validTimeLocal = nullish v5 Null, last_seen_temperatureC = number_or_null v6,
      last_seen_validTimeLocal = nullish v7 Null\<rparr>"
    by (simp add: readDailyHigh_def readDailyHigh_try_def assms bindE_def v1 v2 v3 v4 v5 v6 v7)
  have num: "number_or_null v = (case v of Num n \<Rightarrow> Some n | _ \<Rightarrow> None)" for v
    by (cases v) simp_all
  show ?thesis
    unfolding Let_def r property_missing_def v1 v2 v3 v4 v5 v6 v7
    by (simp add: nullish_def num)
qed

theorem readDailyHigh_sanitizes_witness:
  "readFile (example_files Null) ''./data/wu_daily_high_2024-05-01.json'' =
     Inr (Json_text (Obj [(''samples'', Null), (''high_temperatureC'', Str ''hot'')])) \<and>
   JSON_parse (Json_text (Obj [(''samples'', Null), (''high_temperatureC'', Str ''hot'')])) =
     Inr (Obj [(''samples'', Null), (''high_temperatureC'', Str ''hot'')]) \<and>
   property_missing (Obj [(''samples'', Null), (''high_temperatureC'', Str ''hot'')]) ''date_local'' \<and>
   date_local (readDailyHigh (example_files Null) ''./data/wu_daily_high_2024-05-01.json''
     ''2024-05-01'' ''Europe/London'') = Str ''2024-05-01'' \<and>
   high_temperatureC (readDailyHigh (example_files Null) ''./data/wu_daily_high_2024-05-01.json''
     ''2024-05-01'' ''Europe/London'') = None"
proof -
  have r: "readFile (example_files Null) ''./data/wu_daily_high_2024-05-01.json'' =
     Inr (Json_text (Obj [(''samples'', Null), (''high_temperatureC'', Str ''hot'')]))"
    by (simp add: readFile_def example_files_def)
  have p: "JSON_parse (Json_text (Obj [(''samples'', Null), (''high_temperatureC'', Str ''hot'')])) =
     Inr (Obj [(''samples'', Null), (''high_temperatureC'', Str ''hot'')])"
    by simp
  have m: "property_missing (Obj [(''samples'', Null), (''high_temperatureC'', Str ''hot'')]) ''date_local''"
    by (simp add: property_missing_def)
  have g: "get_prop (Obj [(''samples'', Null), (''high_temperatureC'', Str ''hot'')]) ''high_temperatureC'' = Inr (Str ''hot'')"
    by simp
  from readDailyHigh_sanitizes [OF r p, of "''2024-05-01''" "''Europe/London''"]
  have "date_local (readDailyHigh (example_files Null) ''./data/wu_daily_high_2024-05-01.json''
     ''2024-05-01'' ''Europe/London'') = Str ''2024-05-01''"
    and "high_temperatureC (readDailyHigh (example_files Null) ''./data/wu_daily_high_2024-05-01.json''
     ''2024-05-01'' ''Europe/London'') = None"
    unfolding Let_def g using m by simp_all
  with r p m show ?thesis by simp
qed

section \<open>Selecting the location\<close>

lemma find_first:
  "\<exists>e \<in> set xs. P e \<Longrightarrow>
   \<exists>i < length xs. find P xs = Some (xs ! i) \<and> P (xs ! i) \<and> (\<forall>j < i. \<not> P (xs ! j))"
  by (metis find_Some_iff find_None_iff not_Some_eq)

lemma is_london_gb_iff:
  "is_london_gb e \<longleftrightarrow>
     (\<exists>lp l. v3_location_point e = Some lp \<and> location lp = Some l \<and>
        city l = Some ''London'' \<and> countryCode l = Some ''GB'')"
  by (auto simp: is_london_gb_def entry_location_def split: option.splits)

text \<open>
  Claim C3. \<open>selectLocation\<close> returns the first entry whose id is the target id when
  there is one; when no entry has that id, the first entry whose location has city
  London and country code GB; and nothing when there is neither. It is a function of
  the entries and the target id alone.
\<close>

theorem selectLocation_policy:
  "((\<exists>e \<in> set entries. entry_id e = Some targetId) \<longrightarrow>
      (\<exists>i < length entries. selectLocation entries targetId = Some (entries ! i) \<and>
         entry_id (entries ! i) = Some targetId \<and>
         (\<forall>j < i. entry_id (entries ! j) \<noteq> Some targetId))) \<and>
   ((\<forall>e \<in> set entries. entry_id e \<noteq> Some targetId) \<and> (\<exists>e \<in> set entries. is_london_gb e) \<longrightarrow>
      (\<exists>i < length entries. selectLocation entries targetId = Some (entries ! i) \<and>
         is_london_gb (entries ! i) \<and> (\<forall>j < i. \<not> is_london_gb (entries ! j)))) \<and>
   ((\<forall>e \<in> set entries. entry_id e \<noteq> Some targetId \<and> \<not> is_london_gb e) \<longrightarrow>
      selectLocation entries targetId = None)"
proof (intro conjI impI)
  assume "\<exists>e \<in> set entries. entry_id e = Some targetId"
  from find_first [of entries "\<lambda>e. entry_id e = Some targetId", OF this]
  show "\<exists>i < length entries. selectLocation entries targetId = Some (entries ! i) \<and>
         entry_id (entries ! i) = Some targetId \<and>
         (\<forall>j < i. entry_id (entries ! j) \<noteq> Some targetId)"
    by (auto simp: selectLocation_def)
next
  assume a: "(\<forall>e \<in> set entries. entry_id e \<noteq> Some targetId) \<and> (\<exists>e \<in> set entries. is_london_gb e)"
  then have "find (\<lambda>e. entry_id e = Some targetId) entries = None"
    by (simp add: find_None_iff)
  moreover from a find_first [of entries is_london_gb]
  have "\<exists>i < length entries. find is_london_gb entries = Some (entries ! i) \<and>
         is_london_gb (entries ! i) \<and> (\<forall>j < i. \<not> is_london_gb (entries ! j))" by blast
  ultimately show "\<exists>i < length entries. selectLocation entries targetId = Some (entries ! i) \<and>
         is_london_gb (entries ! i) \<and> (\<forall>j < i. \<not> is_london_gb (entries ! j))"
    by (simp add: selectLocation_def)
next
  assume "\<forall>e \<in> set entries. entry_id e \<noteq> Some targetId \<and> \<not> is_london_gb e"
  then have "find (\<lambda>e. entry_id e = Some targetId) entries = None" "find is_london_gb entries = None"
    by (simp_all add: find_None_iff)
  then show "selectLocation entries targetId = None"
    by (simp add: selectLocation_def)
qed

theorem selectLocation_policy_witness:
  "selectLocation [entry_of (Some ''A'') london, entry_of (Some ''X'') paris] ''X'' = Some (entry_of (Some ''X'') paris) \<and>
   selectLocation [entry_of (Some ''A'') paris, entry_of None london, entry_of (Some ''B'') london] ''X'' =
     Some (entry_of None london) \<and>
   selectLocation [entry_of (Some ''A'') paris, entry_of None paris] ''X'' = None"
proof -
  let ?es1 = "[entry_of (Some ''A'') london, entry_of (Some ''X'') paris]"
  let ?es2 = "[entry_of (Some ''A'') paris, entry_of None london, entry_of (Some ''B'') london]"
  let ?es3 = "[entry_of (Some ''A'') paris, entry_of None paris]"
  have lon: "is_london_gb (entry_of i london)" "\<not> is_london_gb (entry_of i paris)" for i
    by (simp_all add: is_london_gb_def entry_location_def entry_of_def london_def paris_def)
  have id: "entry_id (entry_of i l) = i" for i l by (simp add: entry_of_def)
  have h1: "\<exists>e \<in> set ?es1. entry_id e = Some ''X''" by (simp add: id)
  have h2: "(\<forall>e \<in> set ?es2. entry_id e \<noteq> Some ''X'') \<and> (\<exists>e \<in> set ?es2. is_london_gb e)"
    by (simp add: id lon)
  have h3: "\<forall>e \<in> set ?es3. entry_id e \<noteq> Some ''X'' \<and> \<not> is_london_gb e" by (simp add: id lon)
  from selectLocation_policy [of ?es1 "''X''"] h1
  obtain i where i: "i < length ?es1" "selectLocation ?es1 ''X'' = Some (?es1 ! i)"
    "entry_id (?es1 ! i) = Some ''X''" by blast
  from i(1,3) have "i = 1" by (cases i) (simp_all add: id)
  with i(2) have r1: "selectLocation ?es1 ''X'' = Some (entry_of (Some ''X'') paris)" by simp
  from selectLocation_policy [of ?es2 "''X''"] h2
  obtain k where k: "k < length ?es2" "selectLocation ?es2 ''X'' = Some (?es2 ! k)"
    "is_london_gb (?es2 ! k)" "\<forall>j < k. \<not> is_london_gb (?es2 ! j)" by blast
  from k(1) consider "k = 0" | "k = 1" | "k = 2" by (auto simp: less_Suc_eq numeral_3_eq_3)
  then have "k = 1"
  proof cases
    case 1
    with k(3) show ?thesis by (simp add: lon)
  next
    case 2
    then show ?thesis .
  next
    case 3
    with k(4) have "\<not> is_london_gb (?es2 ! 1)" by (elim allE [of _ 1]) simp
    then show ?thesis by (simp add: lon)
  qed
  with k(2) have r2: "selectLocation ?es2 ''X'' = Some (entry_of None london)" by simp
  from selectLocation_policy [of ?es3 "''X''"] h3
  have r3: "selectLocation ?es3 ''X'' = None" by blast
  from r1 r2 r3 show ?thesis by simp
qed

section \<open>Doubles that are integers\<close>

text \<open>
  Up to \<open>2 ^ 53\<close> in size every integer is a double, so a sum, difference or product of
  integers that stays in that range is computed without error.
\<close>

lemma pow2_powi: "pow2 e = 2 powi e"
  by (simp add: pow2_def power_int_def power_one_over inverse_eq_divide)

lemma pow2_pos: "0 < pow2 e"
  by (simp add: pow2_powi)

lemma pow2_add: "pow2 (a + b) = pow2 a * pow2 b"
  by (simp add: pow2_powi power_int_add)

lemma pow2_Suc: "pow2 (e + 1) = 2 * pow2 e"
  by (simp add: pow2_powi power_int_add)

lemma pow2_pred: "pow2 (e - 1) = pow2 e / 2"
  using pow2_Suc [of "e - 1"] by simp

lemma pow2_nat: "pow2 (int n) = 2 ^ n"
  by (simp add: pow2_def)

lemma pow2_neg_nat: "pow2 (- int n) = 1 / 2 ^ n"
  by (simp add: pow2_powi power_int_minus inverse_eq_divide)

lemma pow2_mono: "a \<le> b \<Longrightarrow> pow2 a \<le> pow2 b"
  by (simp add: pow2_powi power_int_increasing)

lemma pow2_less_imp: "pow2 a < pow2 b \<Longrightarrow> a < b"
  using pow2_mono [of b a] by (cases "a < b") auto

lemma expo_bounds: "0 < x \<Longrightarrow> pow2 (expo x) \<le> x \<and> x < pow2 (expo x + 1)"
proof (induction x rule: expo.induct)
  case (1 x)
  show ?case
  proof (cases "2 \<le> x")
    case True
    then have e: "expo x = expo (x / 2) + 1" by (subst expo.simps) simp
    from True "1.prems" have "0 < x / 2" by simp
    from "1.IH"(1) [OF True this]
    have "pow2 (expo (x / 2)) \<le> x / 2" "x / 2 < pow2 (expo (x / 2) + 1)" by simp_all
    then show ?thesis unfolding e using pow2_Suc [of "expo (x / 2)"] pow2_Suc [of "expo (x / 2) + 1"]
      by (simp add: add.commute)
  next
    case False
    show ?thesis
    proof (cases "x < 1")
      case True
      with "1.prems" have c: "0 < x \<and> x < 1" by simp
      with False have e: "expo x = expo (x * 2) - 1" by (subst expo.simps) simp
      from "1.prems" have "0 < x * 2" by simp
      from "1.IH"(2) [OF False c this]
      have "pow2 (expo (x * 2)) \<le> x * 2" "x * 2 < pow2 (expo (x * 2) + 1)" by simp_all
      then show ?thesis unfolding e by (simp add: pow2_pred pow2_Suc)
    next
      case ge: False
      with False have e: "expo x = 0" by (subst expo.simps) simp
      from ge False show ?thesis unfolding e by (simp add: pow2_def)
    qed
  qed
qed

lemma expo_le: "0 < x \<Longrightarrow> x < pow2 b \<Longrightarrow> expo x < b"
  using expo_bounds [of x] pow2_less_imp [of "expo x" b] by linarith

lemma expo_ge: "pow2 b \<le> x \<Longrightarrow> b \<le> expo x"
proof -
  assume a: "pow2 b \<le> x"
  with pow2_pos [of b] have "0 < x" by linarith
  from expo_bounds [OF this] a have "pow2 b < pow2 (expo x + 1)" by linarith
  from pow2_less_imp [OF this] show ?thesis by simp
qed

lemma round_half_even_int: "round_half_even (real_of_int n) = n"
  by (simp add: round_half_even_def)

lemma round_half_even_le: "y \<le> real_of_int n \<Longrightarrow> round_half_even y \<le> n"
  unfolding round_half_even_def Let_def by (auto split: if_splits; linarith)

lemma round_half_even_ge: "real_of_int n \<le> y \<Longrightarrow> n \<le> round_half_even y"
  unfolding round_half_even_def Let_def by (auto split: if_splits; linarith)

lemma round_half_even_err: "\<bar>real_of_int (round_half_even y) - y\<bar> \<le> 1 / 2"
  unfolding round_half_even_def Let_def by (auto split: if_splits; linarith)

lemma quantum_pos: "0 < quantum x"
  by (simp add: quantum_def pow2_pos)

lemma abs_scale:
  fixes m q x :: real
  assumes "0 < q"
  shows "\<bar>m * q - x\<bar> = \<bar>m - x / q\<bar> * q"
proof -
  have "m * q - x = (m - x / q) * q" using assms by (simp add: field_simps)
  then show ?thesis using assms by (simp add: abs_mult)
qed

lemma expo_small: "\<bar>x\<bar> < 2 ^ 53 \<Longrightarrow> max (expo \<bar>x\<bar>) (- 1022) \<le> 52"
proof -
  assume a: "\<bar>x\<bar> < 2 ^ 53"
  show ?thesis
  proof (cases "x = 0")
    case True
    then show ?thesis by (simp add: expo.simps)
  next
    case False
    then have "0 < \<bar>x\<bar>" by simp
    moreover from a have "\<bar>x\<bar> < pow2 53" by (simp add: pow2_def)
    ultimately have "expo \<bar>x\<bar> < 53" by (rule expo_le)
    then show ?thesis by simp
  qed
qed

text \<open>Below \<open>2 ^ 53\<close> the quantum is one over a power of two.\<close>

lemma quantum_small:
  assumes "\<bar>x\<bar> < 2 ^ 53"
  shows "\<exists>k::nat. quantum x = 1 / 2 ^ k"
proof -
  from expo_small [OF assms] have "max (expo \<bar>x\<bar>) (- 1022) - 52 \<le> 0" by simp
  then obtain k :: nat where "max (expo \<bar>x\<bar>) (- 1022) - 52 = - int k"
    by (metis nonpos_int_cases)
  then have "quantum x = 1 / 2 ^ k" by (simp add: quantum_def pow2_neg_nat)
  then show ?thesis ..
qed

lemma round_double_small:
  assumes "\<bar>x\<bar> < 2 ^ 53"
  shows "round_double x = Finite (real_of_int (round_half_even (x / quantum x)) * quantum x)"
proof -
  let ?q = "quantum x"
  let ?r = "real_of_int (round_half_even (x / ?q)) * ?q"
  from quantum_small [OF assms] obtain k :: nat where k: "?q = 1 / 2 ^ k" by blast
  then have q1: "?q \<le> 1" by (simp add: divide_le_eq)
  have "\<bar>?r - x\<bar> = \<bar>real_of_int (round_half_even (x / ?q)) - x / ?q\<bar> * ?q"
    using quantum_pos [of x] by (rule abs_scale)
  also have "\<dots> \<le> 1 / 2 * ?q"
    using round_half_even_err [of "x / ?q"] quantum_pos [of x] by (intro mult_right_mono) simp_all
  finally have "\<bar>?r - x\<bar> \<le> 1" using q1 by simp
  with assms have "\<bar>?r\<bar> < 2 ^ 53 + 1" by linarith
  moreover have "(2::real) ^ 53 + 1 < 2 ^ 1024" by simp
  ultimately have "\<not> 2 ^ 1024 \<le> \<bar>?r\<bar>" by linarith
  then show ?thesis
    unfolding round_double_def Let_def quantum_def [symmetric] by (simp only: if_False)
qed

text \<open>An integer up to \<open>2 ^ 53\<close> in size is a double: rounding leaves it as it is.\<close>

lemma round_double_int:
  assumes "\<bar>n\<bar> \<le> 2 ^ 53"
  shows "round_double (real_of_int n) = Finite (real_of_int n)"
proof (cases "\<bar>n\<bar> < 2 ^ 53")
  case True
  then have small: "\<bar>real_of_int n\<bar> < 2 ^ 53"
    by (metis of_int_abs of_int_less_numeral_power_cancel_iff)
  from quantum_small [OF small] obtain k :: nat where k: "quantum (real_of_int n) = 1 / 2 ^ k" by blast
  have "real_of_int n / quantum (real_of_int n) = real_of_int (n * 2 ^ k)" by (simp add: k)
  then have "round_half_even (real_of_int n / quantum (real_of_int n)) = n * 2 ^ k"
    by (simp only: round_half_even_int)
  then show ?thesis by (simp add: round_double_small [OF small] k)
next
  case False
  with assms have "\<bar>n\<bar> = 2 ^ 53" by simp
  then consider "n = 2 ^ 53" | "n = - (2 ^ 53)" by (auto simp: abs_if split: if_splits)
  then show ?thesis
    by cases (simp_all add: round_double_def round_half_even_def pow2_def expo.simps Let_def)
qed

text \<open>Rounding does not step over an integer of that size.\<close>

lemma round_double_le_int:
  assumes "\<bar>x\<bar> < 2 ^ 53" and "x \<le> real_of_int n"
  shows "\<exists>r. round_double x = Finite r \<and> r \<le> real_of_int n"
proof -
  from quantum_small [OF assms(1)] obtain k :: nat where k: "quantum x = 1 / 2 ^ k" by blast
  from assms(2) have "x / quantum x \<le> real_of_int (n * 2 ^ k)" by (simp add: k)
  then have "round_half_even (x / quantum x) \<le> n * 2 ^ k" by (rule round_half_even_le)
  then have "real_of_int (round_half_even (x / quantum x)) \<le> real_of_int (n * 2 ^ k)"
    by (simp only: of_int_le_iff)
  then have "real_of_int (round_half_even (x / quantum x)) \<le> real_of_int n * 2 ^ k" by simp
  then have "real_of_int (round_half_even (x / quantum x)) * quantum x \<le> real_of_int n"
    by (simp add: k divide_le_eq)
  with round_double_small [OF assms(1)] show ?thesis by simp
qed

text \<open>In the normal range the rounding error is at most \<open>2 ^ -53\<close> of the value.\<close>

lemma round_double_err:
  assumes "\<bar>x\<bar> < 2 ^ 53" and "pow2 (- 1022) \<le> \<bar>x\<bar>"
  shows "\<exists>r. round_double x = Finite r \<and> \<bar>r - x\<bar> \<le> \<bar>x\<bar> / 2 ^ 53"
proof -
  let ?q = "quantum x"
  let ?r = "real_of_int (round_half_even (x / ?q)) * ?q"
  from assms(2) have e: "- 1022 \<le> expo \<bar>x\<bar>" by (rule expo_ge)
  then have q: "?q = pow2 (expo \<bar>x\<bar>) * pow2 (- 52)"
    by (simp add: quantum_def pow2_add [symmetric])
  from assms(2) pow2_pos [of "- 1022"] have "0 < \<bar>x\<bar>" by linarith
  from expo_bounds [OF this] have "pow2 (expo \<bar>x\<bar>) \<le> \<bar>x\<bar>" by simp
  then have qx: "?q \<le> \<bar>x\<bar> * pow2 (- 52)"
    unfolding q using pow2_pos [of "- 52"] by (intro mult_right_mono) simp_all
  have "\<bar>?r - x\<bar> = \<bar>real_of_int (round_half_even (x / ?q)) - x / ?q\<bar> * ?q"
    using quantum_pos [of x] by (rule abs_scale)
  also have "\<dots> \<le> 1 / 2 * ?q"
    using round_half_even_err [of "x / ?q"] quantum_pos [of x] by (intro mult_right_mono) simp_all
  also have "\<dots> \<le> 1 / 2 * (\<bar>x\<bar> * pow2 (- 52))" using qx by simp
  also have "\<dots> = \<bar>x\<bar> / 2 ^ 53" by (simp add: pow2_def)
  finally have "\<bar>?r - x\<bar> \<le> \<bar>x\<bar> / 2 ^ 53" .
  with round_double_small [OF assms(1)] show ?thesis by simp
qed

text \<open>
  The quotient of two integers, rounded to a double and then taken to the next integer
  above, is the ceiling of the exact quotient, as long as the dividend is below
  \<open>2 ^ 53\<close> in size.
\<close>

lemma ceil_div_exact:
  fixes a i :: int
  assumes "\<bar>a\<bar> < 2 ^ 53" and "0 < i" and "i \<le> 2 ^ 53"
  shows "num_ceil (num_div (Finite (real_of_int a)) (Finite (real_of_int i))) =
         Finite (real_of_int \<lceil>real_of_int a / real_of_int i\<rceil>)"
proof -
  define x where "x = real_of_int a / real_of_int i"
  define c where "c = \<lceil>x\<rceil>"
  from assms(2) have i1: "1 \<le> real_of_int i" by simp
  have ax: "\<bar>x\<bar> \<le> \<bar>real_of_int a\<bar>"
    unfolding x_def using i1 by (simp add: divide_le_eq mult_le_cancel_left1)
  from assms(1) have "\<bar>real_of_int a\<bar> < 2 ^ 53"
    by (metis of_int_abs of_int_less_numeral_power_cancel_iff)
  with ax have small: "\<bar>x\<bar> < 2 ^ 53" by linarith
  have div: "num_div (Finite (real_of_int a)) (Finite (real_of_int i)) = round_double x"
    using assms(2) by (simp add: num_div_def x_def)
  have "x \<le> real_of_int c" by (simp add: c_def)
  from round_double_le_int [OF small this] obtain r where r: "round_double x = Finite r" "r \<le> real_of_int c"
    by blast
  have "real_of_int c - 1 < r"
  proof (cases "x = real_of_int c")
    case True
    have "\<bar>c\<bar> \<le> 2 ^ 53"
    proof -
      from small True have "\<bar>real_of_int c\<bar> < 2 ^ 53" by simp
      then have "\<bar>c\<bar> < 2 ^ 53" by (metis of_int_abs of_int_less_numeral_power_cancel_iff)
      then show ?thesis by simp
    qed
    from round_double_int [OF this] True r(1) show ?thesis by simp
  next
    case False
    then have lt: "x < real_of_int c" using \<open>x \<le> real_of_int c\<close> by simp
    have gap: "1 / real_of_int i \<le> x - (real_of_int c - 1)"
    proof -
      have "real_of_int c - 1 < x" unfolding c_def by linarith
      then have "real_of_int ((c - 1) * i) < real_of_int a"
        using assms(2) by (simp add: x_def pos_less_divide_eq)
      then have "(c - 1) * i < a" by (simp only: of_int_less_iff)
      then have "(c - 1) * i + 1 \<le> a" by simp
      then have "real_of_int ((c - 1) * i + 1) \<le> real_of_int a" by (simp only: of_int_le_iff)
      then have "(real_of_int c - 1) * real_of_int i + 1 \<le> real_of_int a" by simp
      then have "(real_of_int c - 1) + 1 / real_of_int i \<le> x"
        using assms(2) by (simp add: x_def pos_le_divide_eq distrib_right)
      then show ?thesis by simp
    qed
    have a0: "a \<noteq> 0" using False by (auto simp: x_def c_def)
    then have "1 \<le> \<bar>a\<bar>" by simp
    then have "1 \<le> \<bar>real_of_int a\<bar>" by (metis of_int_abs of_int_1_le_iff)
    then have "1 / real_of_int i \<le> \<bar>x\<bar>"
      using assms(2) by (simp add: x_def divide_le_cancel)
    moreover have "pow2 (- 1022) \<le> 1 / real_of_int i"
    proof -
      from assms(3) have "real_of_int i \<le> 2 ^ 53" by (metis of_int_le_numeral_power_cancel_iff)
      then have "1 / 2 ^ 53 \<le> 1 / real_of_int i" using assms(2) by (simp add: frac_le)
      moreover have "pow2 (- 1022) \<le> 1 / 2 ^ 53" by (simp add: pow2_def)
      ultimately show ?thesis by linarith
    qed
    ultimately have normal: "pow2 (- 1022) \<le> \<bar>x\<bar>" by linarith
    from round_double_err [OF small normal] r(1) have err: "\<bar>r - x\<bar> \<le> \<bar>x\<bar> / 2 ^ 53" by simp
    have "\<bar>x\<bar> / 2 ^ 53 < 1 / real_of_int i"
    proof -
      have "\<bar>x\<bar> = \<bar>real_of_int a\<bar> / real_of_int i" using assms(2) by (simp add: x_def)
      then have "\<bar>x\<bar> / 2 ^ 53 = (\<bar>real_of_int a\<bar> / 2 ^ 53) / real_of_int i" by simp
      also have "\<dots> < 1 / real_of_int i"
        using \<open>\<bar>real_of_int a\<bar> < 2 ^ 53\<close> assms(2) by (intro divide_strict_right_mono) simp_all
      finally show ?thesis .
    qed
    with err gap show ?thesis by linarith
  qed
  with r(2) have "\<lceil>r\<rceil> = c" by linarith
  with div r(1) show ?thesis by (simp add: c_def x_def)
qed


lemma num_mul_int:
  fixes a b :: int
  assumes "\<bar>a * b\<bar> \<le> 2 ^ 53"
  shows "num_mul (Finite (real_of_int a)) (Finite (real_of_int b)) = Finite (real_of_int (a * b))"
  using round_double_int [OF assms] by (simp add: num_mul_def)

lemma num_sub_int:
  fixes a b :: int
  assumes "\<bar>a - b\<bar> \<le> 2 ^ 53"
  shows "num_sub (Finite (real_of_int a)) (Finite (real_of_int b)) = Finite (real_of_int (a - b))"
  using round_double_int [OF assms] by (simp add: num_sub_def)

lemma num_add_int:
  fixes a b :: int
  assumes "\<bar>a + b\<bar> \<le> 2 ^ 53"
  shows "num_add (Finite (real_of_int a)) (Finite (real_of_int b)) = Finite (real_of_int (a + b))"
  using round_double_int [OF assms] by simp

section \<open>Aligning the first cycle\<close>

lemma getPollMinutes_positive: "0 < getPollMinutes h env"
  by (simp add: getPollMinutes_def DEFAULT_POLL_MINUTES_def split: option.splits number.splits)

text \<open>
  Claim C7, as stated: for every positive interval in minutes and every clock reading the
  clock plus the delay is a multiple of the interval. It fails where the numbers leave
  the range in which doubles are exact: at an interval of \<open>10 ^ 13\<close> minutes, which
  \<open>getPollMinutes\<close> accepts, the interval is \<open>6 * 10 ^ 17\<close> milliseconds, and the
  difference \<open>next - now\<close> is rounded to a double 64 milliseconds above the exact one.
\<close>

theorem calculateNextDelay_aligned_counterexample:
  "calculateNextDelay (example_host\<lparr>Date_now := 1714564923456\<rparr>) 10000000000000 =
     Finite 599998285435076608 \<and>
   \<not> (10000000000000 * 60000 :: int) dvd 1714564923456 + 599998285435076608"
  by (simp add: calculateNextDelay_def num_mul_def num_div_def num_sub_def num_max_def
      round_double_def round_half_even_def pow2_def expo.simps Let_def)

text \<open>
  Claim C7, amended. For a positive whole number \<open>m\<close> of minutes whose interval
  \<open>m * 60000\<close> is at most \<open>2 ^ 53\<close> milliseconds, and a clock reading above \<open>- 2 ^ 53\<close>
  that is still at most \<open>2 ^ 53\<close> one interval later, \<open>calculateNextDelay\<close> is a whole
  number \<open>d\<close> of milliseconds with \<open>0 \<le> d < m * 60000\<close>, the clock plus \<open>d\<close> is a multiple
  of the interval, and \<open>d = 0\<close> when the clock is on a multiple already; \<open>startLogger\<close>
  sleeps for \<open>d\<close> only when \<open>d\<close> is positive, so on a boundary the first cycle is the
  first thing it does.
\<close>

theorem calculateNextDelay_aligned:
  fixes m :: int
  assumes "0 < m" and "m * 60000 \<le> 2 ^ 53"
    and "- (2 ^ 53) < Date_now h" and "Date_now h + m * 60000 \<le> 2 ^ 53"
  shows "\<exists>d::int. calculateNextDelay h (real_of_int m) = Finite (real_of_int d) \<and>
           0 \<le> d \<and> d < m * 60000 \<and>
           (m * 60000) dvd (Date_now h + d) \<and>
           ((m * 60000) dvd Date_now h \<longrightarrow> d = 0) \<and>
           (getPollMinutes h env = real_of_int m \<longrightarrow>
              startLogger h env first =
                (if 0 < d then [Align_sleep (Finite (real_of_int d))] else []) @ [First_cycle] @
                (case first of
                   Rejected e \<Rightarrow> [Logger_failed e]
                 | _ \<Rightarrow> [Set_interval (Finite (real_of_int (m * 60000)))]))"
proof -
  define I where "I = m * 60000"
  define now where "now = Date_now h"
  define c where "c = \<lceil>real_of_int now / real_of_int I\<rceil>"
  define d where "d = c * I - now"
  have I: "0 < I" "I \<le> 2 ^ 53" using assms(1,2) by (simp_all add: I_def)
  have now: "- (2 ^ 53) < now" "now + I \<le> 2 ^ 53" using assms(3,4) by (simp_all add: now_def I_def)
  then have absnow: "\<bar>now\<bar> < 2 ^ 53" using I(1) by linarith
  have up: "now \<le> c * I"
  proof -
    have "real_of_int now / real_of_int I \<le> real_of_int c" by (simp add: c_def)
    then have "real_of_int now \<le> real_of_int (c * I)" using I(1) by (simp add: pos_divide_le_eq)
    then show ?thesis by (simp only: of_int_le_iff)
  qed
  have lo: "c * I < now + I"
  proof -
    have "real_of_int c - 1 < real_of_int now / real_of_int I" unfolding c_def by linarith
    then have "real_of_int ((c - 1) * I) < real_of_int now" using I(1) by (simp add: pos_less_divide_eq)
    then have "(c - 1) * I < now" by (simp only: of_int_less_iff)
    then show ?thesis by (simp add: left_diff_distrib)
  qed
  have d: "0 \<le> d" "d < I" using up lo by (simp_all add: d_def)
  have m60: "num_mul (Finite (real_of_int m)) (Finite 60) = Finite (real_of_int (m * 60))"
  proof -
    have "\<bar>m * 60\<bar> \<le> 2 ^ 53" using assms(1,2) by linarith
    from num_mul_int [OF this] show ?thesis by simp
  qed
  have ms: "num_mul (num_mul (Finite (real_of_int m)) (Finite 60)) (Finite 1000) = Finite (real_of_int I)"
  proof -
    have "\<bar>(m * 60) * 1000\<bar> \<le> 2 ^ 53" using assms(1,2) by linarith
    from num_mul_int [OF this] show ?thesis by (simp add: m60 I_def)
  qed
  have q: "num_ceil (num_div (Finite (real_of_int now)) (Finite (real_of_int I))) = Finite (real_of_int c)"
    unfolding c_def using absnow I by (rule ceil_div_exact)
  have nx: "num_mul (Finite (real_of_int c)) (Finite (real_of_int I)) = Finite (real_of_int (c * I))"
  proof -
    have "\<bar>c * I\<bar> \<le> 2 ^ 53" using up lo now by linarith
    then show ?thesis by (rule num_mul_int)
  qed
  have sb: "num_sub (Finite (real_of_int (c * I))) (Finite (real_of_int now)) = Finite (real_of_int d)"
  proof -
    have "\<bar>c * I - now\<bar> \<le> 2 ^ 53" using d I(2) by (simp add: d_def)
    from num_sub_int [OF this] show ?thesis by (simp add: d_def)
  qed
  have mx: "num_max (Finite (real_of_int d)) (Finite 0) = Finite (real_of_int d)"
    using d(1) by (simp add: num_max_def)
  have val: "calculateNextDelay h (real_of_int m) = Finite (real_of_int d)"
    unfolding calculateNextDelay_def Let_def now_def [symmetric] ms q nx sb mx by (rule refl)
  have dv: "I dvd now + d" by (simp add: d_def)
  have zero: "d = 0" if "I dvd now"
  proof -
    from that obtain k where k: "now = I * k" ..
    then have "real_of_int now / real_of_int I = real_of_int k" using I(1) by simp
    then have "c = k" by (simp add: c_def)
    with k show ?thesis by (simp add: d_def)
  qed
  have gt: "num_gt (Finite (real_of_int d)) (Finite 0) = (0 < d)" by simp
  have start: "startLogger h env first =
                (if 0 < d then [Align_sleep (Finite (real_of_int d))] else []) @ [First_cycle] @
                (case first of
                   Rejected e \<Rightarrow> [Logger_failed e]
                 | _ \<Rightarrow> [Set_interval (Finite (real_of_int I))])"
    if "getPollMinutes h env = real_of_int m"
    unfolding startLogger_def Let_def that val ms gt by (rule refl)
  have body: "calculateNextDelay h (real_of_int m) = Finite (real_of_int d) \<and>
           0 \<le> d \<and> d < m * 60000 \<and>
           (m * 60000) dvd (Date_now h + d) \<and>
           ((m * 60000) dvd Date_now h \<longrightarrow> d = 0) \<and>
           (getPollMinutes h env = real_of_int m \<longrightarrow>
              startLogger h env first =
                (if 0 < d then [Align_sleep (Finite (real_of_int d))] else []) @ [First_cycle] @
                (case first of
                   Rejected e \<Rightarrow> [Logger_failed e]
                 | _ \<Rightarrow> [Set_interval (Finite (real_of_int (m * 60000)))]))"
    unfolding I_def [symmetric] now_def [symmetric]
  proof (intro conjI impI)
    show "calculateNextDelay h (real_of_int m) = Finite (real_of_int d)" by (rule val)
    show "0 \<le> d" by (rule d(1))
    show "d < I" by (rule d(2))
    show "I dvd now + d" by (rule dv)
    show "d = 0" if "I dvd now" using that by (rule zero)
    show "startLogger h env first =
                (if 0 < d then [Align_sleep (Finite (real_of_int d))] else []) @ [First_cycle] @
                (case first of
                   Rejected e \<Rightarrow> [Logger_failed e]
                 | _ \<Rightarrow> [Set_interval (Finite (real_of_int I))])"
      if "getPollMinutes h env = real_of_int m" using that by (rule start)
  qed
  show ?thesis
    by (rule exI [of _ d]) (rule body)
qed

theorem calculateNextDelay_aligned_witness:
  "(0::int) < 10 \<and> getPollMinutes example_host example_env = 10 \<and>
   calculateNextDelay example_host 10 = Finite 0 \<and>
   startLogger example_host example_env Completed = [First_cycle, Set_interval (Finite 600000)] \<and>
   (\<exists>d::int. calculateNextDelay (example_host\<lparr>Date_now := 1714564923456\<rparr>) 10 = Finite (real_of_int d) \<and>
        0 \<le> d \<and> d < 600000 \<and> 600000 dvd 1714564923456 + d)"
proof -
  have pos: "(0::int) < 10" by simp
  have rng: "(10::int) * 60000 \<le> 2 ^ 53" by simp
  have poll: "getPollMinutes example_host example_env = real_of_int 10"
    by (simp add: getPollMinutes_def getEnvVar_def example_env_def DEFAULT_POLL_MINUTES_def)
  have c1: "- (2 ^ 53) < Date_now example_host" "Date_now example_host + 10 * 60000 \<le> 2 ^ 53"
    by (simp_all add: example_host_def)
  have c2: "- (2 ^ 53) < Date_now (example_host\<lparr>Date_now := 1714564923456\<rparr>)"
    "Date_now (example_host\<lparr>Date_now := 1714564923456\<rparr>) + 10 * 60000 \<le> 2 ^ 53"
    by simp_all
  have onb: "(10 * 60000 :: int) dvd Date_now example_host"
    by (simp add: example_host_def)
  from calculateNextDelay_aligned [OF pos rng c1, of example_env Completed] onb poll
  have a: "calculateNextDelay example_host 10 = Finite 0"
    and b: "startLogger example_host example_env Completed = [First_cycle, Set_interval (Finite 600000)]"
    by auto
  from calculateNextDelay_aligned [OF pos rng c2, of example_env Completed]
  have c: "\<exists>d::int. calculateNextDelay (example_host\<lparr>Date_now := 1714564923456\<rparr>) 10 = Finite (real_of_int d) \<and>
        0 \<le> d \<and> d < 600000 \<and> 600000 dvd 1714564923456 + d"
    by auto
  from pos poll a b c show ?thesis by simp
qed

section \<open>Retrying the fetch\<close>

text \<open>
  When every attempt fails, \<open>fetchWithRetry\<close> makes each of its attempts, reports and
  sleeps after each one, the last one too, and throws the error of the last attempt.
\<close>

lemma fetch_loop_all_fail:
  assumes "\<And>k. attempt_once (net url t k) = Inl (err k)"
  shows "fetch_loop net url n t a e evs =
     (evs @ concat (map (\<lambda>k. [Fetch k, Console_error k (err k), Sleep (500 * 2 ^ (k - 1))]) [a..<Suc n]),
      Inl (if a \<le> n then err n else e))"
proof (induction "Suc n - a" arbitrary: a e evs)
  case 0
  then have "\<not> a \<le> n" by simp
  then show ?case by (simp add: fetch_loop.simps [of _ _ _ _ a])
next
  case (Suc x)
  then have le: "a \<le> n" and x: "x = Suc n - (a + 1)" by simp_all
  let ?f = "\<lambda>k. [Fetch k, Console_error k (err k), Sleep (500 * 2 ^ (k - 1))]"
  have up: "[a..<Suc n] = a # [a + 1..<Suc n]" using le by (simp add: upt_conv_Cons del: upt_Suc)
  have last: "(if a + 1 \<le> n then err n else err a) = err n"
    using le by (cases "a = n") auto
  have "fetch_loop net url n t a e evs = fetch_loop net url n t (a + 1) (err a) (evs @ ?f a)"
    using le by (subst fetch_loop.simps) (simp add: assms)
  also have "\<dots> = ((evs @ ?f a) @ concat (map ?f [a + 1..<Suc n]), Inl (if a + 1 \<le> n then err n else err a))"
    by (rule Suc.hyps(1) [OF x])
  also have "\<dots> = (evs @ concat (map ?f [a..<Suc n]), Inl (if a \<le> n then err n else e))"
    unfolding last up using le by simp
  finally show ?case .
qed

lemma fetchWithRetry_all_fail:
  assumes "\<And>k. attempt_once (net url t k) = Inl (err k)"
  shows "fetchWithRetry net url n t =
     (concat (map (\<lambda>k. [Fetch k, Console_error k (err k), Sleep (500 * 2 ^ (k - 1))]) [1..<Suc n]),
      Inl (if 1 \<le> n then err n else Thrown_undefined))"
  unfolding fetchWithRetry_def using fetch_loop_all_fail [of net url t err n 1 Thrown_undefined "[]", OF assms]
  by simp

text \<open>
  Claim C2. With three attempts that all fail, \<open>fetchWithRetry\<close> makes exactly three
  requests and fails with the error of the third; but it sleeps after each failure, also
  after the third, when no attempt follows: 500 ms, 1000 ms and 2000 ms, so 3500 ms
  pass in back-off before the failure is reported, not 1500 ms.
\<close>

theorem fetchWithRetry_backoff_after_last_attempt:
  "fetchWithRetry failing_net ''https://api.weather.com'' 3 15000 =
     ([Fetch 1, Console_error 1 (WeatherCom_error 501), Sleep 500,
       Fetch 2, Console_error 2 (WeatherCom_error 502), Sleep 1000,
       Fetch 3, Console_error 3 (WeatherCom_error 503), Sleep 2000],
      Inl (WeatherCom_error 503)) \<and>
   total_backoff (fst (fetchWithRetry failing_net ''https://api.weather.com'' 3 15000)) = 3500"
proof -
  have "attempt_once (failing_net ''https://api.weather.com'' 15000 k) = Inl (WeatherCom_error (500 + k))" for k
    by (simp add: failing_net_def attempt_once_def)
  from fetchWithRetry_all_fail [of failing_net _ _ "\<lambda>k. WeatherCom_error (500 + k)", OF this, of 3]
  have "fetchWithRetry failing_net ''https://api.weather.com'' 3 15000 =
     ([Fetch 1, Console_error 1 (WeatherCom_error 501), Sleep 500,
       Fetch 2, Console_error 2 (WeatherCom_error 502), Sleep 1000,
       Fetch 3, Console_error 3 (WeatherCom_error 503), Sleep 2000],
      Inl (WeatherCom_error 503))"
    by (simp add: upt_rec numeral_3_eq_3)
  then show ?thesis by (simp add: total_backoff_def)
qed

section \<open>Updating the aggregate\<close>

lemma num_gt_irrefl: "\<not> num_gt a a"
  by (cases a) simp_all

text \<open>
  Claim C1, as stated: when the high is replaced, its time stamp takes the value of the
  new sample. It fails for a sample that has a temperature and no \<open>validTimeLocal\<close>:
  the high becomes 15, the time stamp stays that of the earlier high.
\<close>

theorem daily_high_update_counterexample:
  "high_temperatureC (updatedDailyHigh example_host (example_record (Some (Finite 10)) (Str ''2024-05-01T09:00:00''))
      (Some (Finite 15)) None ''2024-05-01'' ''Europe/London'') = Some (Finite 15) \<and>
   high_at_validTimeLocal (updatedDailyHigh example_host (example_record (Some (Finite 10)) (Str ''2024-05-01T09:00:00''))
      (Some (Finite 15)) None ''2024-05-01'' ''Europe/London'') = Str ''2024-05-01T09:00:00'' \<and>
   high_at_validTimeLocal (updatedDailyHigh example_host (example_record (Some (Finite 10)) (Str ''2024-05-01T09:00:00''))
      (Some (Finite 15)) None ''2024-05-01'' ''Europe/London'') \<noteq> of_nullable_string None"
  by (simp add: updatedDailyHigh_def example_record_def Let_def nullish_def)

text \<open>
  Claim C1, amended. The high is replaced exactly when the sample has a numeric
  temperature and the stored high is \<open>null\<close> or strictly below it. Then
  \<open>high_temperatureC\<close> is the temperature of the sample, and \<open>high_at_validTimeLocal\<close>
  is the time stamp of the sample when it has one and the stored time stamp otherwise.
  In every other case, a tie among them, both fields stay as they were. The stored
  aggregate is one \<open>readDailyHigh\<close> can return: its time stamp is not \<open>undefined\<close>.
\<close>

theorem daily_high_update:
  assumes "high_at_validTimeLocal dailyHigh \<noteq> Undefined"
  shows "let u = updatedDailyHigh h dailyHigh t v d z;
             replaced = (case t of
                 None \<Rightarrow> False
               | Some x \<Rightarrow> (case high_temperatureC dailyHigh of None \<Rightarrow> True | Some hi \<Rightarrow> num_gt x hi))
         in high_temperatureC u = (if replaced then t else high_temperatureC dailyHigh) \<and>
            high_at_validTimeLocal u =
              (if replaced then (case v of Some s \<Rightarrow> Str s | None \<Rightarrow> high_at_validTimeLocal dailyHigh)
               else high_at_validTimeLocal dailyHigh) \<and>
            (t = high_temperatureC dailyHigh \<longrightarrow>
               high_temperatureC u = high_temperatureC dailyHigh \<and>
               high_at_validTimeLocal u = high_at_validTimeLocal dailyHigh)"
  using assms
  apply (cases t; cases "high_temperatureC dailyHigh"; cases v)
  apply (auto simp: updatedDailyHigh_def Let_def nullish_def num_gt_irrefl)
  done

theorem daily_high_update_witness:
  "high_at_validTimeLocal (example_record (Some (Finite 10)) (Str ''2024-05-01T09:00:00'')) \<noteq> Undefined \<and>
   high_temperatureC (updatedDailyHigh example_host (example_record (Some (Finite 10)) (Str ''2024-05-01T09:00:00''))
      (Some (Finite 15)) (Some ''2024-05-01T12:00:00'') ''2024-05-01'' ''Europe/London'') = Some (Finite 15) \<and>
   high_at_validTimeLocal (updatedDailyHigh example_host (example_record (Some (Finite 10)) (Str ''2024-05-01T09:00:00''))
      (Some (Finite 15)) (Some ''2024-05-01T12:00:00'') ''2024-05-01'' ''Europe/London'') = Str ''2024-05-01T12:00:00'' \<and>
   high_temperatureC (updatedDailyHigh example_host (example_record (Some (Finite 15)) (Str ''2024-05-01T09:00:00''))
      (Some (Finite 15)) (Some ''2024-05-01T12:00:00'') ''2024-05-01'' ''Europe/London'') = Some (Finite 15) \<and>
   high_at_validTimeLocal (updatedDailyHigh example_host (example_record (Some (Finite 15)) (Str ''2024-05-01T09:00:00''))
      (Some (Finite 15)) (Some ''2024-05-01T12:00:00'') ''2024-05-01'' ''Europe/London'') = Str ''2024-05-01T09:00:00''"
proof -
  have d: "high_at_validTimeLocal (example_record hi (Str ''2024-05-01T09:00:00'')) \<noteq> Undefined" for hi
    by (simp add: example_record_def)
  have f: "high_temperatureC (example_record hi w) = hi" "high_at_validTimeLocal (example_record hi w) = w" for hi w
    by (simp_all add: example_record_def)
  from daily_high_update [OF d, of example_host "Some (Finite 10)" "Some (Finite 15)" "Some ''2024-05-01T12:00:00''"
      "''2024-05-01''" "''Europe/London''"]
    daily_high_update [OF d, of example_host "Some (Finite 15)" "Some (Finite 15)" "Some ''2024-05-01T12:00:00''"
      "''2024-05-01''" "''Europe/London''"]
    d [of "Some (Finite 10)"]
  show ?thesis by (simp add: Let_def f)
qed

text \<open>
  Claim C5, as stated: when the sample has no numeric temperature, both last-seen fields
  become \<open>null\<close>. It fails for a sample that has a time stamp and no temperature: the
  last-seen time stamp is the one of the sample.
\<close>

theorem last_seen_overwritten_counterexample:
  "last_seen_temperatureC (updatedDailyHigh example_host (example_record (Some (Finite 10)) (Str ''2024-05-01T09:00:00''))
      None (Some ''2024-05-01T12:00:00'') ''2024-05-01'' ''Europe/London'') = None \<and>
   last_seen_validTimeLocal (updatedDailyHigh example_host (example_record (Some (Finite 10)) (Str ''2024-05-01T09:00:00''))
      None (Some ''2024-05-01T12:00:00'') ''2024-05-01'' ''Europe/London'') = Str ''2024-05-01T12:00:00'' \<and>
   last_seen_validTimeLocal (updatedDailyHigh example_host (example_record (Some (Finite 10)) (Str ''2024-05-01T09:00:00''))
      None (Some ''2024-05-01T12:00:00'') ''2024-05-01'' ''Europe/London'') \<noteq> Null"
  by (simp add: updatedDailyHigh_def example_record_def Let_def nullish_def)

text \<open>
  Claim C5, amended. Whatever the stored aggregate and whether or not the sample sets a
  new high, \<open>last_seen_temperatureC\<close> is the temperature of the sample when it is numeric
  and \<open>null\<close> otherwise, and \<open>last_seen_validTimeLocal\<close> is the time stamp of the sample
  when it has one and \<open>null\<close> otherwise.
\<close>

theorem last_seen_overwritten:
  "last_seen_temperatureC (updatedDailyHigh h dailyHigh t v d z) = t \<and>
   last_seen_validTimeLocal (updatedDailyHigh h dailyHigh t v d z) = of_nullable_string v"
  by (cases v) (simp_all add: updatedDailyHigh_def Let_def nullish_def split: prod.splits)

section \<open>A cycle\<close>

lemma split_slash_nonempty: "split_slash s \<noteq> []"
  by (induction s) (auto split: list.splits)

lemma split_slash_append:
  "CHR ''/'' \<notin> set suf \<Longrightarrow>
   split_slash (pre @ suf) = butlast (split_slash pre) @ [last (split_slash pre) @ suf]"
proof (induction pre)
  case Nil
  then show ?case
  proof (induction suf)
    case Nil
    show ?case by simp
  next
    case (Cons c cs)
    then show ?case by (auto split: list.splits)
  qed
next
  case (Cons c pre)
  from split_slash_nonempty [of pre] obtain s ss where sp: "split_slash pre = s # ss"
    by (cases "split_slash pre") auto
  from Cons have IH: "split_slash (pre @ suf) = butlast (s # ss) @ [last (s # ss) @ suf]" by (simp add: sp)
  show ?case
  proof (cases "c = CHR ''/''")
    case True
    with IH sp show ?thesis by simp
  next
    case False
    with IH sp show ?thesis by (cases ss) auto
  qed
qed

lemma norm_segs_last:
  "t \<noteq> [] \<Longrightarrow> t \<noteq> ''.'' \<Longrightarrow> t \<noteq> ''..'' \<Longrightarrow>
   norm_segs allowAboveRoot st (ss @ [t]) = norm_segs allowAboveRoot st ss @ [t]"
  by (induction ss arbitrary: st) (auto split: list.splits)

lemma join_slash_last: "\<exists>u. join_slash (xs @ [t]) = u @ t"
proof (induction xs rule: join_slash.induct)
  case 1
  show ?case by simp
next
  case (2 s)
  show ?case by simp
next
  case (3 s t' ss)
  then obtain u where "join_slash ((t' # ss) @ [t]) = u @ t" by blast
  then have "join_slash ((s # t' # ss) @ [t]) = (s @ ''/'' @ u) @ t" by simp
  then show ?case by blast
qed

lemma path_normalize_suffix:
  assumes "CHR ''/'' \<notin> set suf" and "2 < length suf"
  shows "\<exists>u. path_normalize (pre @ suf) = u @ suf"
proof -
  define t where "t = last (split_slash pre) @ suf"
  from assms(2) have "2 < length t" by (simp add: t_def)
  then have t: "t \<noteq> []" "t \<noteq> ''.''" "t \<noteq> ''..''" by auto
  from assms(2) have ne: "suf \<noteq> []" by auto
  then have "last suf \<in> set suf" by (rule last_in_set)
  with assms(1) have "last suf \<noteq> CHR ''/''" by metis
  with ne have nt: "last (pre @ suf) \<noteq> CHR ''/''" by (simp add: last_append)
  have "split_slash (pre @ suf) = butlast (split_slash pre) @ [t]"
    unfolding t_def using assms(1) by (rule split_slash_append)
  then have "norm_segs allowAboveRoot [] (split_slash (pre @ suf)) =
             norm_segs allowAboveRoot [] (butlast (split_slash pre)) @ [t]" for allowAboveRoot
    using t by (simp add: norm_segs_last)
  with join_slash_last obtain u where
    u: "join_slash (norm_segs (\<not> (hd (pre @ suf) = CHR ''/'')) [] (split_slash (pre @ suf))) = u @ t"
    by metis
  have "path_normalize (pre @ suf) = ((if hd (pre @ suf) = CHR ''/'' then ''/'' else []) @ u @ last (split_slash pre)) @ suf"
    using ne nt t(1) by (simp add: path_normalize_def Let_def u) (simp add: t_def)
  then show ?thesis by blast
qed

lemma path_join_suffix:
  assumes "CHR ''/'' \<notin> set suf" and "2 < length suf"
  shows "\<exists>u. path_join a (x @ suf) = u @ suf"
proof -
  from assms(2) have ne: "suf \<noteq> []" by auto
  have "path_join a (x @ suf) = path_normalize ((if a = [] then x else a @ ''/'' @ x) @ suf)"
    using ne by (simp add: path_join_def)
  with path_normalize_suffix [OF assms] show ?thesis by simp
qed


lemma paths_differ: "buildJsonlPath outputDir d \<noteq> buildDailyHighPath outputDir d'"
proof
  assume eq: "buildJsonlPath outputDir d = buildDailyHighPath outputDir d'"
  have "\<exists>u. path_join outputDir ((''wu_current_london_'' @ d) @ ''.jsonl'') = u @ ''.jsonl''"
    by (rule path_join_suffix) simp_all
  then obtain u where u: "buildJsonlPath outputDir d = u @ ''.jsonl''"
    by (auto simp: buildJsonlPath_def)
  have "\<exists>u. path_join outputDir ((''wu_daily_high_'' @ d') @ ''.json'') = u @ ''.json''"
    by (rule path_join_suffix) simp_all
  then obtain w where w: "buildDailyHighPath outputDir d' = w @ ''.json''"
    by (auto simp: buildDailyHighPath_def)
  from eq u w have "last (u @ ''.jsonl'') = last (w @ ''.json'')" by simp
  then show False by simp
qed

lemma readDailyHigh_cong: "files p = files' p \<Longrightarrow> readDailyHigh files p d z = readDailyHigh files' p d z"
  by (simp add: readDailyHigh_def readDailyHigh_try_def readFile_def)

text \<open>The \<open>samples\<close> that are read do not depend on the fallbacks.\<close>

lemma samples_read_fallback:
  "samples (readDailyHigh files p d z) = samples (readDailyHigh files p d' z')"
proof (cases "readDailyHigh_try files p d z")
  case (Inl e)
  then have "\<exists>e'. readDailyHigh_try files p d' z' = Inl e'"
    by (auto simp: readDailyHigh_try_def bindE_def split: sum.splits)
  with Inl show ?thesis by (auto simp: readDailyHigh_def fresh_record_def)
next
  case (Inr r)
  then obtain r' where "readDailyHigh_try files p d' z' = Inr r'" "samples r' = samples r"
    by (auto simp: readDailyHigh_try_def bindE_def split: sum.splits)
  with Inr show ?thesis by (simp add: readDailyHigh_def)
qed

lemma appendFile_other: "q \<noteq> p \<Longrightarrow> appendFile files p v q = files q"
  by (simp add: appendFile_def)

lemma writeDailyHigh_other: "q \<noteq> p \<Longrightarrow> writeDailyHigh files p r q = files q"
  by (simp add: writeDailyHigh_def writeFile_def)

lemma writeDailyHigh_same: "writeDailyHigh files p r p = Some (JSON_stringify (record_object r))"
  by (simp add: writeDailyHigh_def writeFile_def)

text \<open>
  A cycle either ends before it writes and leaves the files as they are, or it
  completes: then it has appended one line to the log of its day and written, at the
  path of that day's aggregate, the update of what was stored there.
\<close>

lemma logOnce_cases:
  "(fst (logOnce h env net files) \<noteq> Completed \<and> snd (logOnce h env net files) = files) \<or>
   (\<exists>entry loc observation dateLocal.
      fst (logOnce h env net files) = Completed \<and>
      snd (logOnce h env net files) =
        writeDailyHigh
          (appendFile files
             (buildJsonlPath (as_string (getEnvVar h env ''OUTPUT_DIR'' (Some DEFAULT_OUTPUT_DIR))) dateLocal)
             (sample_record h entry
                (as_string (getEnvVar h env ''TARGET_LOCATION_ID'' (Some DEFAULT_TARGET_ID))) loc observation))
          (buildDailyHighPath (as_string (getEnvVar h env ''OUTPUT_DIR'' (Some DEFAULT_OUTPUT_DIR))) dateLocal)
          (updatedDailyHigh h
             (readDailyHigh files
                (buildDailyHighPath (as_string (getEnvVar h env ''OUTPUT_DIR'' (Some DEFAULT_OUTPUT_DIR))) dateLocal)
                dateLocal (as_string (getEnvVar h env ''TIMEZONE'' (Some DEFAULT_TIMEZONE))))
             (temperature observation) (validTimeLocal observation) dateLocal
             (as_string (getEnvVar h env ''TIMEZONE'' (Some DEFAULT_TIMEZONE)))))"
proof -
  have rd: "readDailyHigh (appendFile files (buildJsonlPath o' d) v) (buildDailyHighPath o' d) d z =
            readDailyHigh files (buildDailyHighPath o' d) d z" for o' d v z
    by (rule readDailyHigh_cong) (simp add: appendFile_other paths_differ [symmetric])
  show ?thesis
    unfolding logOnce_def Let_def ensureOutputDir_def
    by (auto split: sum.splits payload.splits option.splits prod.splits simp: rd)
qed

lemma samples_updated: "samples (updatedDailyHigh h d t v dl tz) = plus_one h (samples d)"
  by (simp add: updatedDailyHigh_def Let_def split: prod.splits)

lemma plus_one_int:
  fixes n :: int
  assumes "- (2 ^ 53) \<le> n" and "n < 2 ^ 53"
  shows "plus_one h (Num (Finite (real_of_int n))) = Num (Finite (real_of_int (n + 1)))"
proof -
  from assms have "\<bar>n + 1\<bar> \<le> 2 ^ 53" by linarith
  from num_add_int [OF this] show ?thesis by simp
qed

lemma samples_read_back:
  assumes "readFile files p = Inr (JSON_stringify (record_object r))" and "samples r = Num (Finite y)"
  shows "samples (readDailyHigh files p d z) = Num (Finite y)"
  by (simp add: readDailyHigh_written [OF assms(1)] assms(2) nullish_def)

lemma cycle_samples:
  assumes files': "files' = writeDailyHigh (appendFile files (buildJsonlPath outputDir dateLocal) line)
            (buildDailyHighPath outputDir dateLocal)
            (updatedDailyHigh h (readDailyHigh files (buildDailyHighPath outputDir dateLocal) dateLocal timeZone)
               t v dateLocal timeZone)"
  shows "(\<exists>dateLocal t v.
           let p = buildDailyHighPath outputDir dateLocal;
               loaded = readDailyHigh files p dateLocal timeZone;
               written = updatedDailyHigh h loaded t v dateLocal timeZone
           in files' p = Some (JSON_stringify (record_object written)) \<and>
              (\<forall>n. samples loaded = Num n \<longrightarrow> samples written = Num (num_add n (Finite 1))) \<and>
              (\<forall>k::int. - (2 ^ 53) \<le> k \<and> k < 2 ^ 53 \<and> samples loaded = Num (Finite (real_of_int k)) \<longrightarrow>
                 samples written = Num (Finite (real_of_int (k + 1))) \<and>
                 samples (readDailyHigh files' p dateLocal timeZone) = Num (Finite (real_of_int (k + 1))))) \<and>
      (\<forall>day (k::int). - (2 ^ 53) \<le> k \<and> k < 2 ^ 53 \<and>
           samples (readDailyHigh files (buildDailyHighPath outputDir day) day timeZone) =
             Num (Finite (real_of_int k)) \<longrightarrow>
         (\<exists>j::int. k \<le> j \<and>
            samples (readDailyHigh files' (buildDailyHighPath outputDir day) day timeZone) =
              Num (Finite (real_of_int j))))"
proof -
  define p where "p = buildDailyHighPath outputDir dateLocal"
  define loaded where "loaded = readDailyHigh files p dateLocal timeZone"
  define written where "written = updatedDailyHigh h loaded t v dateLocal timeZone"
  have at_p: "files' p = Some (JSON_stringify (record_object written))"
    unfolding files' written_def loaded_def p_def by (rule writeDailyHigh_same)
  then have read_p: "readFile files' p = Inr (JSON_stringify (record_object written))"
    by (simp add: readFile_def)
  have other: "files' q = files q" if "q \<noteq> p" "q \<noteq> buildJsonlPath outputDir dateLocal" for q
    unfolding files' using that by (simp add: writeDailyHigh_other appendFile_other p_def)
  have s: "samples written = plus_one h (samples loaded)"
    unfolding written_def by (rule samples_updated)
  have num: "samples written = Num (num_add n (Finite 1))" if "samples loaded = Num n" for n
    using that s by simp
  have fin: "samples written = Num (Finite (real_of_int (k + 1))) \<and>
             samples (readDailyHigh files' p d z) = Num (Finite (real_of_int (k + 1)))"
    if "- (2 ^ 53) \<le> k \<and> k < 2 ^ 53 \<and> samples loaded = Num (Finite (real_of_int k))" for k :: int and d z
  proof -
    from that have r: "- (2 ^ 53) \<le> k" "k < 2 ^ 53" and l: "samples loaded = Num (Finite (real_of_int k))"
      by simp_all
    from s l plus_one_int [OF r, of h] have w: "samples written = Num (Finite (real_of_int (k + 1)))"
      by simp
    from samples_read_back [OF read_p w] w show ?thesis by simp
  qed
  have "files' p = Some (JSON_stringify (record_object written)) \<and>
        (\<forall>n. samples loaded = Num n \<longrightarrow> samples written = Num (num_add n (Finite 1))) \<and>
        (\<forall>k::int. - (2 ^ 53) \<le> k \<and> k < 2 ^ 53 \<and> samples loaded = Num (Finite (real_of_int k)) \<longrightarrow>
           samples written = Num (Finite (real_of_int (k + 1))) \<and>
           samples (readDailyHigh files' p dateLocal timeZone) = Num (Finite (real_of_int (k + 1))))"
  proof (intro conjI allI impI)
    show "files' p = Some (JSON_stringify (record_object written))" by (rule at_p)
  next
    fix n assume "samples loaded = Num n"
    then show "samples written = Num (num_add n (Finite 1))" by (rule num)
  next
    fix k :: int
    assume l: "- (2 ^ 53) \<le> k \<and> k < 2 ^ 53 \<and> samples loaded = Num (Finite (real_of_int k))"
    from fin [OF l] show "samples written = Num (Finite (real_of_int (k + 1)))" by (rule conjunct1)
    from fin [OF l] show "samples (readDailyHigh files' p dateLocal timeZone) = Num (Finite (real_of_int (k + 1)))"
      by (rule conjunct2)
  qed
  then have first: "\<exists>dateLocal t v.
           let p = buildDailyHighPath outputDir dateLocal;
               loaded = readDailyHigh files p dateLocal timeZone;
               written = updatedDailyHigh h loaded t v dateLocal timeZone
           in files' p = Some (JSON_stringify (record_object written)) \<and>
              (\<forall>n. samples loaded = Num n \<longrightarrow> samples written = Num (num_add n (Finite 1))) \<and>
              (\<forall>k::int. - (2 ^ 53) \<le> k \<and> k < 2 ^ 53 \<and> samples loaded = Num (Finite (real_of_int k)) \<longrightarrow>
                 samples written = Num (Finite (real_of_int (k + 1))) \<and>
                 samples (readDailyHigh files' p dateLocal timeZone) = Num (Finite (real_of_int (k + 1))))"
    unfolding Let_def written_def loaded_def p_def
    by (intro exI [of _ dateLocal] exI [of _ t] exI [of _ v])
  have second: "\<exists>j::int. k \<le> j \<and>
          samples (readDailyHigh files' (buildDailyHighPath outputDir day) day timeZone) =
            Num (Finite (real_of_int j))"
    if old: "- (2 ^ 53) \<le> k \<and> k < 2 ^ 53 \<and>
           samples (readDailyHigh files (buildDailyHighPath outputDir day) day timeZone) =
             Num (Finite (real_of_int k))"
    for day and k :: int
  proof (cases "buildDailyHighPath outputDir day = p")
    case True
    from old True have "samples (readDailyHigh files p day timeZone) = Num (Finite (real_of_int k))" by simp
    then have "samples loaded = Num (Finite (real_of_int k))"
      unfolding loaded_def by (simp add: samples_read_fallback [of files p dateLocal timeZone day timeZone])
    with old have "- (2 ^ 53) \<le> k \<and> k < 2 ^ 53 \<and> samples loaded = Num (Finite (real_of_int k))" by simp
    from fin [OF this, of day timeZone] True
    have "k \<le> k + 1 \<and>
          samples (readDailyHigh files' (buildDailyHighPath outputDir day) day timeZone) =
            Num (Finite (real_of_int (k + 1)))"
      by simp
    then show ?thesis by (rule exI [of _ "k + 1"])
  next
    case False
    then have "files' (buildDailyHighPath outputDir day) = files (buildDailyHighPath outputDir day)"
      by (rule other) (rule paths_differ [symmetric])
    from readDailyHigh_cong [of files' _ files, OF this] old
    have "k \<le> k \<and>
          samples (readDailyHigh files' (buildDailyHighPath outputDir day) day timeZone) =
            Num (Finite (real_of_int k))"
      by simp
    then show ?thesis by (rule exI [of _ k])
  qed
  from second have "\<forall>day (k::int). - (2 ^ 53) \<le> k \<and> k < 2 ^ 53 \<and>
           samples (readDailyHigh files (buildDailyHighPath outputDir day) day timeZone) =
             Num (Finite (real_of_int k)) \<longrightarrow>
         (\<exists>j::int. k \<le> j \<and>
            samples (readDailyHigh files' (buildDailyHighPath outputDir day) day timeZone) =
              Num (Finite (real_of_int j)))"
    by (intro allI impI)
  with first show ?thesis by (rule conjI)
qed

text \<open>The cycle of the examples: one entry for London with 18.2 degrees at noon.\<close>

lemma round_double_examples:
  "round_double 1 = Finite 1"
  "round_double 5 = Finite 5"
  "round_double 9007199254740993 = Finite 9007199254740992"
  by (simp_all add: round_double_def round_half_even_def pow2_def expo.simps Let_def)

lemma example_paths:
  "buildDailyHighPath ''./data'' ''2024-05-01'' = ''data/wu_daily_high_2024-05-01.json''"
  "buildJsonlPath ''./data'' ''2024-05-01'' = ''data/wu_current_london_2024-05-01.jsonl''"
  by (simp_all add: buildDailyHighPath_def buildJsonlPath_def path_join_def path_normalize_def)

lemma example_settings:
  "as_string (getEnvVar example_host example_env ''OUTPUT_DIR'' (Some DEFAULT_OUTPUT_DIR)) = ''./data''"
  "as_string (getEnvVar example_host example_env ''TIMEZONE'' (Some DEFAULT_TIMEZONE)) = ''Europe/London''"
  "as_string (getEnvVar example_host example_env ''TARGET_LOCATION_ID'' (Some DEFAULT_TARGET_ID)) =
     ''51.50999832,-0.13''"
  "getFetchTimeoutMs example_host example_env = 15000"
  "\<exists>url. buildUrl example_host example_env = Inr url"
  by (simp_all add: as_string_def getEnvVar_def getFetchTimeoutMs_def buildUrl_def example_host_def
      example_env_def DEFAULT_OUTPUT_DIR_def DEFAULT_TIMEZONE_def DEFAULT_TARGET_ID_def
      DEFAULT_FETCH_TIMEOUT_MS_def ascii_trim_def is_space_def)

lemma example_fetch:
  "snd (fetchWithRetry example_net url 3 t) = Inr (Entries [entry_of (Some ''51.50999832,-0.13'') london])"
  by (simp add: fetchWithRetry_def fetch_loop.simps attempt_once_def example_net_def bindE_def)

lemma example_date:
  "getLocalDateString example_host (Some ''2024-05-01T12:00:00'') ''Europe/London'' = Inr ''2024-05-01''"
  by (simp add: getLocalDateString_def formatDateParts_def example_host_def)

lemma example_cycle:
  "logOnce example_host example_env example_net files =
     (Completed,
      writeDailyHigh
        (appendFile files ''data/wu_current_london_2024-05-01.jsonl''
           (sample_record example_host (entry_of (Some ''51.50999832,-0.13'') london) ''51.50999832,-0.13''
              london (reading (Some (Finite 18.2)) (Some ''2024-05-01T12:00:00''))))
        ''data/wu_daily_high_2024-05-01.json''
        (updatedDailyHigh example_host
           (readDailyHigh files ''data/wu_daily_high_2024-05-01.json'' ''2024-05-01'' ''Europe/London'')
           (Some (Finite 18.2)) (Some ''2024-05-01T12:00:00'') ''2024-05-01'' ''Europe/London''))"
proof -
  obtain url where url: "buildUrl example_host example_env = Inr url"
    using example_settings(5) by blast
  have sel: "selectLocation [entry_of (Some i) l] i = Some (entry_of (Some i) l)" for i l
    by (simp add: selectLocation_def entry_of_def)
  have ent: "entry_location (entry_of i l) = Some l"
    "v3_wx_observations_current (entry_of i l) =
       Some (reading (Some (Finite 18.2)) (Some ''2024-05-01T12:00:00''))" for i l
    by (simp_all add: entry_location_def entry_of_def)
  have obs: "validTimeLocal (reading t v) = v" "temperature (reading t v) = t" for t v
    by (simp_all add: reading_def)
  have rd: "readDailyHigh (appendFile files ''data/wu_current_london_2024-05-01.jsonl'' v)
              ''data/wu_daily_high_2024-05-01.json'' d z =
            readDailyHigh files ''data/wu_daily_high_2024-05-01.json'' d z" for v d z
    by (rule readDailyHigh_cong) (simp add: appendFile_def)
  show ?thesis
    by (simp add: logOnce_def Let_def example_settings(1-4) url bindE_def example_fetch sel ent obs
        example_date example_paths ensureOutputDir_def rd)
qed

lemma aggregate_loaded:
  "readDailyHigh (aggregate_files n) ''data/wu_daily_high_2024-05-01.json'' ''2024-05-01'' ''Europe/London'' =
     \<lparr>date_local = Str ''2024-05-01'',
      timezone = Str ''Europe/London'',
      samples = nullish (json_image n) (Num (Finite 0)),
      high_temperatureC = Some (Finite 20),
      high_at_validTimeLocal = Str ''2024-05-01T09:00:00'',
      last_seen_temperatureC = Some (Finite 10),
      last_seen_validTimeLocal = Str ''2024-05-01T09:00:00''\<rparr>"
  by (simp add: aggregate_files_def example_record_def readDailyHigh_def readDailyHigh_try_def
      readFile_def bindE_def JSON_stringify_def record_object_def nullish_def Let_def)

lemmas written_defs = example_cycle aggregate_loaded writeDailyHigh_def writeFile_def
  updatedDailyHigh_def nullish_def JSON_stringify_def record_object_def round_double_examples Let_def

text \<open>
  Claim C8, as stated: every completed cycle writes the loaded \<open>samples\<close> plus one. It
  fails at the end of the range in which doubles count: \<open>2 ^ 53 + 1\<close> is not a double,
  \<open>dailyHigh.samples + 1\<close> rounds it to \<open>2 ^ 53\<close>, and a cycle that loads
  \<open>9007199254740992\<close> samples writes \<open>9007199254740992\<close> again.
\<close>

theorem samples_incremented_counterexample:
  "fst (logOnce example_host example_env example_net (aggregate_files (Num (Finite 9007199254740992)))) =
     Completed \<and>
   samples (readDailyHigh (aggregate_files (Num (Finite 9007199254740992)))
      ''data/wu_daily_high_2024-05-01.json'' ''2024-05-01'' ''Europe/London'') =
     Num (Finite 9007199254740992) \<and>
   snd (logOnce example_host example_env example_net (aggregate_files (Num (Finite 9007199254740992))))
     ''data/wu_daily_high_2024-05-01.json'' =
     Some (Json_text (Obj
       [(''date_local'', Str ''2024-05-01''),
        (''timezone'', Str ''Europe/London''),
        (''samples'', Num (Finite 9007199254740992)),
        (''high_temperatureC'', Num (Finite 20)),
        (''high_at_validTimeLocal'', Str ''2024-05-01T09:00:00''),
        (''last_seen_temperatureC'', Num (Finite 18.2)),
        (''last_seen_validTimeLocal'', Str ''2024-05-01T12:00:00'')]))"
  by (simp add: written_defs)

text \<open>
  Claim C8, amended. A completed cycle writes the aggregate of its day; where the
  loaded \<open>samples\<close> is a number \<open>n\<close> the written \<open>samples\<close> is the double nearest to
  \<open>n + 1\<close>, whatever the temperature of the sample, and for a whole number \<open>n\<close> with
  \<open>- 2 ^ 53 \<le> n < 2 ^ 53\<close> it is \<open>n + 1\<close> exactly, and the next load of that file reads
  \<open>n + 1\<close>. A cycle that does not complete (the fetch failed, the payload is not an
  array, no entry was selected, the entry lacks its data, or the date could not be
  formatted) leaves every file as it was. So for every day key, a whole number of
  \<open>samples\<close> in that range that is loaded before a cycle is not above the one loaded
  after it.
\<close>

theorem samples_incremented:
  "let files' = snd (logOnce h env net files);
       outputDir = as_string (getEnvVar h env ''OUTPUT_DIR'' (Some DEFAULT_OUTPUT_DIR));
       timeZone = as_string (getEnvVar h env ''TIMEZONE'' (Some DEFAULT_TIMEZONE))
   in (fst (logOnce h env net files) = Completed \<longrightarrow>
        (\<exists>dateLocal t v.
           let p = buildDailyHighPath outputDir dateLocal;
               loaded = readDailyHigh files p dateLocal timeZone;
               written = updatedDailyHigh h loaded t v dateLocal timeZone
           in files' p = Some (JSON_stringify (record_object written)) \<and>
              (\<forall>n. samples loaded = Num n \<longrightarrow> samples written = Num (num_add n (Finite 1))) \<and>
              (\<forall>k::int. - (2 ^ 53) \<le> k \<and> k < 2 ^ 53 \<and> samples loaded = Num (Finite (real_of_int k)) \<longrightarrow>
                 samples written = Num (Finite (real_of_int (k + 1))) \<and>
                 samples (readDailyHigh files' p dateLocal timeZone) = Num (Finite (real_of_int (k + 1)))))) \<and>
      (fst (logOnce h env net files) \<noteq> Completed \<longrightarrow> files' = files) \<and>
      (\<forall>day (k::int). - (2 ^ 53) \<le> k \<and> k < 2 ^ 53 \<and>
           samples (readDailyHigh files (buildDailyHighPath outputDir day) day timeZone) =
             Num (Finite (real_of_int k)) \<longrightarrow>
         (\<exists>j::int. k \<le> j \<and>
            samples (readDailyHigh files' (buildDailyHighPath outputDir day) day timeZone) =
              Num (Finite (real_of_int j))))"
proof -
  define files' where "files' = snd (logOnce h env net files)"
  define outputDir where "outputDir = as_string (getEnvVar h env ''OUTPUT_DIR'' (Some DEFAULT_OUTPUT_DIR))"
  define timeZone where "timeZone = as_string (getEnvVar h env ''TIMEZONE'' (Some DEFAULT_TIMEZONE))"
  let ?A = "\<exists>dateLocal t v.
           let p = buildDailyHighPath outputDir dateLocal;
               loaded = readDailyHigh files p dateLocal timeZone;
               written = updatedDailyHigh h loaded t v dateLocal timeZone
           in files' p = Some (JSON_stringify (record_object written)) \<and>
              (\<forall>n. samples loaded = Num n \<longrightarrow> samples written = Num (num_add n (Finite 1))) \<and>
              (\<forall>k::int. - (2 ^ 53) \<le> k \<and> k < 2 ^ 53 \<and> samples loaded = Num (Finite (real_of_int k)) \<longrightarrow>
                 samples written = Num (Finite (real_of_int (k + 1))) \<and>
                 samples (readDailyHigh files' p dateLocal timeZone) = Num (Finite (real_of_int (k + 1))))"
  let ?B = "\<forall>day (k::int). - (2 ^ 53) \<le> k \<and> k < 2 ^ 53 \<and>
           samples (readDailyHigh files (buildDailyHighPath outputDir day) day timeZone) =
             Num (Finite (real_of_int k)) \<longrightarrow>
         (\<exists>j::int. k \<le> j \<and>
            samples (readDailyHigh files' (buildDailyHighPath outputDir day) day timeZone) =
              Num (Finite (real_of_int j)))"
  have "(fst (logOnce h env net files) = Completed \<longrightarrow> ?A) \<and>
        (fst (logOnce h env net files) \<noteq> Completed \<longrightarrow> files' = files) \<and> ?B"
    using logOnce_cases [of h env net files]
  proof (elim disjE exE conjE)
    assume n: "fst (logOnce h env net files) \<noteq> Completed" and "snd (logOnce h env net files) = files"
    then have same: "files' = files" by (simp add: files'_def)
    have ?B unfolding same
    proof (intro allI impI)
      fix day and k :: int
      assume "- (2 ^ 53) \<le> k \<and> k < 2 ^ 53 \<and>
           samples (readDailyHigh files (buildDailyHighPath outputDir day) day timeZone) =
             Num (Finite (real_of_int k))"
      then have "k \<le> k \<and> samples (readDailyHigh files (buildDailyHighPath outputDir day) day timeZone) =
             Num (Finite (real_of_int k))"
        by simp
      then show "\<exists>j::int. k \<le> j \<and> samples (readDailyHigh files (buildDailyHighPath outputDir day) day timeZone) =
             Num (Finite (real_of_int j))"
        by (rule exI)
    qed
    with n same show ?thesis by simp
  next
    fix entry loc observation dateLocal
    assume c: "fst (logOnce h env net files) = Completed"
    assume "snd (logOnce h env net files) =
        writeDailyHigh
          (appendFile files
             (buildJsonlPath (as_string (getEnvVar h env ''OUTPUT_DIR'' (Some DEFAULT_OUTPUT_DIR))) dateLocal)
             (sample_record h entry
                (as_string (getEnvVar h env ''TARGET_LOCATION_ID'' (Some DEFAULT_TARGET_ID))) loc observation))
          (buildDailyHighPath (as_string (getEnvVar h env ''OUTPUT_DIR'' (Some DEFAULT_OUTPUT_DIR))) dateLocal)
          (updatedDailyHigh h
             (readDailyHigh files
                (buildDailyHighPath (as_string (getEnvVar h env ''OUTPUT_DIR'' (Some DEFAULT_OUTPUT_DIR))) dateLocal)
                dateLocal (as_string (getEnvVar h env ''TIMEZONE'' (Some DEFAULT_TIMEZONE))))
             (temperature observation) (validTimeLocal observation) dateLocal
             (as_string (getEnvVar h env ''TIMEZONE'' (Some DEFAULT_TIMEZONE))))"
    then have w: "files' =
        writeDailyHigh
          (appendFile files (buildJsonlPath outputDir dateLocal)
             (sample_record h entry (as_string (getEnvVar h env ''TARGET_LOCATION_ID'' (Some DEFAULT_TARGET_ID))) loc observation))
          (buildDailyHighPath outputDir dateLocal)
          (updatedDailyHigh h
             (readDailyHigh files (buildDailyHighPath outputDir dateLocal) dateLocal timeZone)
             (temperature observation) (validTimeLocal observation) dateLocal timeZone)"
      by (simp only: files'_def outputDir_def timeZone_def)
    from cycle_samples [OF w] have ab: "?A \<and> ?B" .
    from ab have a: ?A by (rule conjunct1)
    from ab have b: ?B by (rule conjunct2)
    from c a b show ?thesis by (intro conjI impI) simp_all
  qed
  then show ?thesis
    unfolding Let_def files'_def outputDir_def timeZone_def .
qed

theorem samples_incremented_witness:
  "fst (logOnce example_host example_env example_net (aggregate_files (Num (Finite 4)))) = Completed \<and>
   samples (readDailyHigh (aggregate_files (Num (Finite 4))) ''data/wu_daily_high_2024-05-01.json''
      ''2024-05-01'' ''Europe/London'') = Num (Finite 4) \<and>
   (\<exists>j::int. 4 \<le> j \<and>
      samples (readDailyHigh (snd (logOnce example_host example_env example_net (aggregate_files (Num (Finite 4)))))
        ''data/wu_daily_high_2024-05-01.json'' ''2024-05-01'' ''Europe/London'') = Num (Finite (real_of_int j))) \<and>
   (\<exists>dateLocal t v.
      snd (logOnce example_host example_env example_net (aggregate_files (Num (Finite 4))))
        (buildDailyHighPath ''./data'' dateLocal) =
      Some (JSON_stringify (record_object (updatedDailyHigh example_host
        (readDailyHigh (aggregate_files (Num (Finite 4))) (buildDailyHighPath ''./data'' dateLocal) dateLocal ''Europe/London'')
        t v dateLocal ''Europe/London'')))) \<and>
   snd (logOnce example_host example_env example_net (aggregate_files (Num (Finite 4))))
     ''data/wu_daily_high_2024-05-01.json'' =
     Some (Json_text (Obj
       [(''date_local'', Str ''2024-05-01''),
        (''timezone'', Str ''Europe/London''),
        (''samples'', Num (Finite 5)),
        (''high_temperatureC'', Num (Finite 20)),
        (''high_at_validTimeLocal'', Str ''2024-05-01T09:00:00''),
        (''last_seen_temperatureC'', Num (Finite 18.2)),
        (''last_seen_validTimeLocal'', Str ''2024-05-01T12:00:00'')]))"
proof -
  note od = example_settings(1) and tz = example_settings(2) and path = example_paths(1)
  have c: "fst (logOnce example_host example_env example_net (aggregate_files (Num (Finite 4)))) = Completed"
    by (simp add: example_cycle)
  have l: "samples (readDailyHigh (aggregate_files (Num (Finite 4))) ''data/wu_daily_high_2024-05-01.json''
      ''2024-05-01'' ''Europe/London'') = Num (Finite (real_of_int 4))"
    by (simp add: aggregate_loaded nullish_def)
  have f: "snd (logOnce example_host example_env example_net (aggregate_files (Num (Finite 4))))
     ''data/wu_daily_high_2024-05-01.json'' =
     Some (Json_text (Obj
       [(''date_local'', Str ''2024-05-01''),
        (''timezone'', Str ''Europe/London''),
        (''samples'', Num (Finite 5)),
        (''high_temperatureC'', Num (Finite 20)),
        (''high_at_validTimeLocal'', Str ''2024-05-01T09:00:00''),
        (''last_seen_temperatureC'', Num (Finite 18.2)),
        (''last_seen_validTimeLocal'', Str ''2024-05-01T12:00:00'')]))"
    by (simp add: written_defs)
  note T = samples_incremented [of example_host example_env example_net "aggregate_files (Num (Finite 4))",
      unfolded Let_def od tz]
  from T [THEN conjunct2, THEN conjunct2] have "\<forall>day (k::int). - (2 ^ 53) \<le> k \<and> k < 2 ^ 53 \<and>
           samples (readDailyHigh (aggregate_files (Num (Finite 4))) (buildDailyHighPath ''./data'' day) day ''Europe/London'') =
             Num (Finite (real_of_int k)) \<longrightarrow>
         (\<exists>j::int. k \<le> j \<and>
            samples (readDailyHigh (snd (logOnce example_host example_env example_net (aggregate_files (Num (Finite 4)))))
              (buildDailyHighPath ''./data'' day) day ''Europe/London'') = Num (Finite (real_of_int j)))"
    .
  from this [rule_format, of 4 "''2024-05-01''", unfolded path] l
  have b: "\<exists>j::int. 4 \<le> j \<and>
      samples (readDailyHigh (snd (logOnce example_host example_env example_net (aggregate_files (Num (Finite 4)))))
        ''data/wu_daily_high_2024-05-01.json'' ''2024-05-01'' ''Europe/London'') = Num (Finite (real_of_int j))"
    by simp
  from T [THEN conjunct1, rule_format, OF c]
  obtain dateLocal t v where
    "snd (logOnce example_host example_env example_net (aggregate_files (Num (Finite 4))))
        (buildDailyHighPath ''./data'' dateLocal) =
      Some (JSON_stringify (record_object (updatedDailyHigh example_host
        (readDailyHigh (aggregate_files (Num (Finite 4))) (buildDailyHighPath ''./data'' dateLocal) dateLocal ''Europe/London'')
        t v dateLocal ''Europe/London'')))"
    by blast
  then have a: "\<exists>dateLocal t v.
      snd (logOnce example_host example_env example_net (aggregate_files (Num (Finite 4))))
        (buildDailyHighPath ''./data'' dateLocal) =
      Some (JSON_stringify (record_object (updatedDailyHigh example_host
        (readDailyHigh (aggregate_files (Num (Finite 4))) (buildDailyHighPath ''./data'' dateLocal) dateLocal ''Europe/London'')
        t v dateLocal ''Europe/London'')))"
    by (intro exI)
  from l have l': "samples (readDailyHigh (aggregate_files (Num (Finite 4))) ''data/wu_daily_high_2024-05-01.json''
      ''2024-05-01'' ''Europe/London'') = Num (Finite 4)"
    by simp
  from c l' b a f show ?thesis by (intro conjI)
qed

text \<open>
  The scenario of the specification: no file yet, one entry for London with 18.2 degrees
  at noon. The cycle leaves a log of one line and an aggregate of one sample.
\<close>

lemma first_cycle_of_the_day:
  "fst (logOnce example_host example_env example_net no_files) = Completed \<and>
   snd (logOnce example_host example_env example_net no_files)
     ''data/wu_daily_high_2024-05-01.json'' =
     Some (Json_text (Obj
       [(''date_local'', Str ''2024-05-01''),
        (''timezone'', Str ''Europe/London''),
        (''samples'', Num (Finite 1)),
        (''high_temperatureC'', Num (Finite 18.2)),
        (''high_at_validTimeLocal'', Str ''2024-05-01T12:00:00''),
        (''last_seen_temperatureC'', Num (Finite 18.2)),
        (''last_seen_validTimeLocal'', Str ''2024-05-01T12:00:00'')])) \<and>
   (\<exists>line. snd (logOnce example_host example_env example_net no_files)
      ''data/wu_current_london_2024-05-01.jsonl'' = Some (Json_lines [line]) \<and>
      get_prop line ''temperatureC'' = Inr (Num (Finite 18.2)))"
  by (simp add: example_cycle no_files_def writeDailyHigh_def writeFile_def appendFile_def
      readDailyHigh_def readDailyHigh_try_def readFile_def bindE_def fresh_record_def
      updatedDailyHigh_def nullish_def JSON_stringify_def record_object_def sample_record_def
      reading_def london_def entry_of_def round_double_examples Let_def)

section \<open>The local date\<close>

text \<open>
  \<open>getLocalDateString\<close> formats the parsed time stamp when there is one that parses, and
  the current time when the time stamp is absent, empty or unparsable. The string it
  returns, and whether it returns, is the formatter's business.
\<close>

lemma getLocalDateString_degrades:
  "getLocalDateString h v timeZone =
     formatDateParts h
       (case v of
          None \<Rightarrow> Date_now h
        | Some s \<Rightarrow> (case (if s = [] then None else Date_parse h s) of
                      None \<Rightarrow> Date_now h
                    | Some t \<Rightarrow> t))
       timeZone"
  by (simp add: getLocalDateString_def Let_def split: option.splits)

end
